theory Spec2Isabelle
  imports Main
begin

section \<open>Strings and host values\<close>

text \<open>
  A TypeScript string is a sequence of UTF-16 code units; a code unit is a natural number
  here, so that the white space of \<^verbatim>\<open>\s\<close> and \<^verbatim>\<open>trim()\<close> beyond ASCII is
  the source's. \<open>js\<close> embeds an ASCII literal.
\<close>

type_synonym js_string = "nat list"

definition js :: "string \<Rightarrow> js_string" where
  "js s = map of_char s"

text \<open>The characters \<^verbatim>\<open>"\<close> and \<^verbatim>\<open>'\<close> of the source's template strings.\<close>

definition dquote :: js_string where
  "dquote = [34]"

definition apos :: js_string where
  "apos = [39]"

text \<open>
  \<^verbatim>\<open>if (x)\<close> on a value of type \<^verbatim>\<open>string | undefined | null\<close>: the empty
  string is falsy, like \<^verbatim>\<open>undefined\<close>.
\<close>

definition truthy :: "js_string option \<Rightarrow> bool" where
  "truthy x = (case x of None \<Rightarrow> False | Some s \<Rightarrow> s \<noteq> [])"

text \<open>\<^verbatim>\<open>x || d\<close> on such a value: \<open>d\<close> replaces a falsy \<open>x\<close>.\<close>

definition or_else :: "js_string option \<Rightarrow> js_string \<Rightarrow> js_string" where
  "or_else x d = (case x of None \<Rightarrow> d | Some s \<Rightarrow> if s = [] then d else s)"

text \<open>\<^verbatim>\<open>String.prototype.includes\<close>: the argument occurs as a contiguous run.\<close>

fun includes_str :: "js_string \<Rightarrow> js_string \<Rightarrow> bool" where
  "includes_str [] k = (k = [])"
| "includes_str (c # cs) k = (take (length k) (c # cs) = k \<or> includes_str cs k)"

text \<open>
  The decimal digits of a non-negative integer, as a template string prints an index or a
  value of \<^verbatim>\<open>Date.now()\<close>.
\<close>

function show_nat :: "nat \<Rightarrow> js_string" where
  "show_nat n = (if n < 10 then [48 + n] else show_nat (n div 10) @ [48 + n mod 10])"
  by pat_completeness auto
termination
  by (relation "measure id") auto

declare show_nat.simps [simp del]

text \<open>
  What \<^verbatim>\<open>JSON.parse\<close> can return. A number is an IEEE double of the host and is left
  uninterpreted. \<^verbatim>\<open>JSON.parse\<close> itself is the host's: the functions below take it
  as the parameter \<open>JSON_parse\<close>, where \<open>None\<close> is the \<^verbatim>\<open>SyntaxError\<close> it throws.
\<close>

typedecl js_number

datatype json =
    JNull
  | JBool bool
  | JNumber js_number
  | JString js_string
  | JArray "json list"
  | JObject "(js_string \<times> json) list"

datatype js_error = SyntaxError | TypeError

text \<open>A settled promise: the value it resolves with, or a rejection.\<close>

datatype 'a promise = Resolved 'a | Rejected

section \<open>Numbers\<close>

text \<open>
  A value of the type \<^verbatim>\<open>number\<close> is an IEEE 754 double. The values modelled are the
  doubles that are integers (\<open>Finite\<close>; the two zeros are one value), the two infinities
  and \<^verbatim>\<open>NaN\<close>; fractions are left out. An integer is a double when it has at most 53
  significant bits and its magnitude is below \<open>2 ^ 1024\<close>.
\<close>

datatype number = Finite int | PosInfinity | NegInfinity | NaN

text \<open>
  For \<open>a\<close> of 54 bits or more, \<open>2 ^ ulp_exp a\<close> is the distance between the doubles
  around \<open>a\<close>: dividing by it leaves 53 bits.
\<close>

function ulp_exp :: "nat \<Rightarrow> nat" where
  "ulp_exp a = (if a < 2 ^ 53 then 0 else Suc (ulp_exp (a div 2)))"
  by pat_completeness auto
termination
  by (relation "measure id") auto

declare ulp_exp.simps [simp del]

text \<open>
  Rounding a magnitude to 53 significant bits, to the nearest and on a tie to the even
  one (roundTiesToEven), with no bound on the exponent.
\<close>

definition round_nat :: "nat \<Rightarrow> nat" where
  "round_nat a =
     (if a < 2 ^ 53 then a
      else (let u = 2 ^ ulp_exp a; q = a div u; r = a mod u
            in (if 2 * r < u \<or> (2 * r = u \<and> even q) then q else q + 1) * u))"

definition round_double :: "int \<Rightarrow> int" where
  "round_double x = sgn x * int (round_nat (nat \<bar>x\<bar>))"

text \<open>The double of an exact integer result: rounded, and an infinity from \<open>2 ^ 1024\<close> on.\<close>

definition number_of_exact :: "int \<Rightarrow> number" where
  "number_of_exact r =
     (let v = round_double r in
      if 2 ^ 1024 \<le> v then PosInfinity
      else if v \<le> - (2 ^ 1024) then NegInfinity
      else Finite v)"

text \<open>\<^verbatim>\<open>x + y\<close> on numbers.\<close>

fun Number_add :: "number \<Rightarrow> number \<Rightarrow> number" where
  "Number_add NaN y = NaN"
| "Number_add x NaN = NaN"
| "Number_add PosInfinity NegInfinity = NaN"
| "Number_add NegInfinity PosInfinity = NaN"
| "Number_add PosInfinity y = PosInfinity"
| "Number_add x PosInfinity = PosInfinity"
| "Number_add NegInfinity y = NegInfinity"
| "Number_add x NegInfinity = NegInfinity"
| "Number_add (Finite a) (Finite b) = number_of_exact (a + b)"

text \<open>\<^verbatim>\<open>x <= y\<close> on numbers: false when either is \<^verbatim>\<open>NaN\<close>.\<close>

fun Number_le :: "number \<Rightarrow> number \<Rightarrow> bool" where
  "Number_le NaN y = False"
| "Number_le x NaN = False"
| "Number_le NegInfinity y = True"
| "Number_le x PosInfinity = True"
| "Number_le PosInfinity y = False"
| "Number_le x NegInfinity = False"
| "Number_le (Finite a) (Finite b) = (a \<le> b)"

text \<open>The values of the model that are doubles.\<close>

definition is_double :: "number \<Rightarrow> bool" where
  "is_double x =
     (case x of Finite a \<Rightarrow> round_double a = a \<and> \<bar>a\<bar> < 2 ^ 1024 | _ \<Rightarrow> True)"

section \<open>types.ts\<close>

datatype Difficulty = Beginner | Intermediate | Conversational


record StudentProgress =
  xp :: number
  level :: Difficulty
  streakDays :: number
  learnedSigns :: "js_string list"

record Lesson =
  id_lesson :: js_string
  target :: js_string
  description :: js_string
  difficulty :: Difficulty
  prompt :: js_string

record FeedbackResponse =
  success :: bool
  message :: js_string
  correctionPrompt :: "js_string option"

datatype AppState =
    IDLE
  | GENERATING_REF
  | WAITING_FOR_USER
  | LISTENING
  | ANALYZING
  | FEEDBACK
  | SUCCESS

section \<open>constants.ts\<close>

definition ALPHABET_LESSONS :: "Lesson list" where
  "ALPHABET_LESSONS =
    [ \<lparr> id_lesson = js ''A'', target = js ''A'',
        description = js ''Make a fist with your thumb resting against the side of your index finger.'',
        difficulty = Beginner,
        prompt = js ''photorealistic close-up of a hand signing ASL letter A, neutral background, 4k'' \<rparr>,
      \<lparr> id_lesson = js ''B'', target = js ''B'',
        description = js ''Open palm, fingers straight up and together, thumb tucked across palm.'',
        difficulty = Beginner,
        prompt = js ''photorealistic close-up of a hand signing ASL letter B, neutral background, 4k'' \<rparr>,
      \<lparr> id_lesson = js ''C'', target = js ''C'',
        description = js ''Curve your fingers and thumb to form a C shape.'',
        difficulty = Beginner,
        prompt = js ''photorealistic close-up of a hand signing ASL letter C, side profile, neutral background, 4k'' \<rparr> ]"

definition INITIAL_PROGRESS :: StudentProgress where
  "INITIAL_PROGRESS =
     \<lparr> xp = Finite 0, level = Beginner, streakDays = Finite 1, learnedSigns = [] \<rparr>"

section \<open>The progress store (useProgress)\<close>

text \<open>\<^verbatim>\<open>localStorage\<close>: keys to stored texts.\<close>

type_synonym storage = "js_string \<rightharpoonup> js_string"

definition progress_key :: js_string where
  "progress_key = js ''signsynth-progress''"

text \<open>
  The initialiser of the progress state:
  \<^verbatim>\<open>saved ? JSON.parse(saved) : INITIAL_PROGRESS\<close>, where \<open>saved\<close> is
  \<^verbatim>\<open>localStorage.getItem('signsynth-progress')\<close>: \<^verbatim>\<open>null\<close> and the empty text are
  falsy. The parsed value is used at the type \<^verbatim>\<open>StudentProgress\<close> unchecked, so
  \<open>JSON_parse\<close> is taken at that type. No handler surrounds the call: a
  \<^verbatim>\<open>SyntaxError\<close> leaves the initialiser.
\<close>

definition useProgress_initial ::
  "(js_string \<Rightarrow> StudentProgress option) \<Rightarrow> storage \<Rightarrow> js_error + StudentProgress" where
  "useProgress_initial JSON_parse store =
     (case store progress_key of
        None \<Rightarrow> Inr INITIAL_PROGRESS
      | Some saved \<Rightarrow>
          if saved = [] then Inr INITIAL_PROGRESS
          else (case JSON_parse saved of
                  None \<Rightarrow> Inl SyntaxError
                | Some p \<Rightarrow> Inr p))"

text \<open>The effect that writes the record back after each change of it.\<close>

definition useProgress_persist ::
  "(StudentProgress \<Rightarrow> js_string) \<Rightarrow> StudentProgress \<Rightarrow> storage \<Rightarrow> storage" where
  "useProgress_persist JSON_stringify p store = store(progress_key \<mapsto> JSON_stringify p)"

definition addXP :: "number \<Rightarrow> StudentProgress \<Rightarrow> StudentProgress" where
  "addXP amount prev = prev\<lparr> xp := Number_add (xp prev) amount \<rparr>"

definition markLearned :: "js_string \<Rightarrow> StudentProgress \<Rightarrow> StudentProgress" where
  "markLearned sign prev =
     (if sign \<in> set (learnedSigns prev) then prev
      else prev\<lparr> learnedSigns := learnedSigns prev @ [sign] \<rparr>)"

section \<open>services/aiService.ts: analyzeHandShape\<close>

text \<open>
  What the primary path meets: no client (\<^verbatim>\<open>if (!ai) throw\<close>), a request that
  rejects, or a response with its \<^verbatim>\<open>text\<close> (possibly \<^verbatim>\<open>undefined\<close>).
\<close>

datatype remote = NoApiKey | RequestFails | Responds "js_string option"

text \<open>
  The two draws of \<^verbatim>\<open>Math.random()\<close> in the fallback, by what the code makes of
  them: \<^verbatim>\<open>Math.random() > 0.4\<close>, and
  \<^verbatim>\<open>Math.floor(Math.random() * errors.length)\<close>, which is 0, 1 or 2.
\<close>

datatype pick = Pick0 | Pick1 | Pick2

record draws =
  isSuccess :: bool
  errorPick :: pick

text \<open>
  What the function returns: the value of \<^verbatim>\<open>JSON.parse(text)\<close> as it is (the
  source returns it unchecked), or the response built in the \<^verbatim>\<open>catch\<close> block.
\<close>

datatype analysis = Unchecked json | Synthesized FeedbackResponse

definition errors :: "js_string \<Rightarrow> pick \<Rightarrow> js_string" where
  "errors tgt k =
     (case k of
        Pick0 \<Rightarrow> js ''Your thumb is tucked too tight for '' @ apos @ tgt @ apos
                   @ js ''. Relax it slightly.''
      | Pick1 \<Rightarrow> js ''Your fingers need to be straighter. Look at the reference.''
      | Pick2 \<Rightarrow> js ''Rotate your wrist slightly outward to match the angle.'')"

text \<open>The \<^verbatim>\<open>catch\<close> block (MOCK FALLBACK).\<close>

definition mockFallback :: "js_string \<Rightarrow> js_string option \<Rightarrow> draws \<Rightarrow> FeedbackResponse" where
  "mockFallback tgt spokenQuestion d =
     (if truthy spokenQuestion then
        \<lparr> success = False,
          message = js ''I heard you ask: '' @ dquote @ or_else spokenQuestion [] @ dquote
            @ js ''. Based on the image, your index finger looks good, but check your thumb placement.'',
          correctionPrompt = Some (js ''photorealistic hand signing ASL letter '' @ tgt) \<rparr>
      else if isSuccess d then
        \<lparr> success = True,
          message = js ''Excellent! Your shape for '' @ apos @ tgt @ apos
            @ js '' looks perfect based on our simulation.'',
          correctionPrompt = None \<rparr>
      else
        \<lparr> success = False,
          message = errors tgt (errorPick d),
          correctionPrompt = Some (js ''photorealistic hand signing ASL letter '' @ tgt
            @ js '' with emphasis on correct thumb placement, highlighted green outlines'') \<rparr>)"

text \<open>
  The \<^verbatim>\<open>try\<close> block: every throw in it (no client, a rejected request, a
  \<^verbatim>\<open>SyntaxError\<close> of \<^verbatim>\<open>JSON.parse\<close>) reaches the \<^verbatim>\<open>catch\<close> block;
  \<^verbatim>\<open>response.text || "{}"\<close> replaces a missing or empty text.
\<close>

definition analyzeHandShape ::
  "(js_string \<Rightarrow> json option) \<Rightarrow> remote \<Rightarrow> js_string \<Rightarrow> js_string \<Rightarrow> js_string option
     \<Rightarrow> draws \<Rightarrow> analysis" where
  "analyzeHandShape JSON_parse ai tgt imageBase64 spokenQuestion d =
     (case ai of
        NoApiKey \<Rightarrow> Synthesized (mockFallback tgt spokenQuestion d)
      | RequestFails \<Rightarrow> Synthesized (mockFallback tgt spokenQuestion d)
      | Responds response_text \<Rightarrow>
          (let text = or_else response_text (js ''{}'')
           in case JSON_parse text of
                None \<Rightarrow> Synthesized (mockFallback tgt spokenQuestion d)
              | Some v \<Rightarrow> Unchecked v))"

text \<open>
  Reading a property of a parsed value: an object has the value of the last member of
  that name, any other value has none.
\<close>

definition property :: "json \<Rightarrow> js_string \<Rightarrow> json option" where
  "property v k = (case v of JObject members \<Rightarrow> map_of (rev members) k | _ \<Rightarrow> None)"

text \<open>
  A returned value with a boolean \<open>success\<close> and a non-empty string \<open>message\<close>. A
  synthesized response has both fields by its type.
\<close>

definition wellformed_json :: "json \<Rightarrow> bool" where
  "wellformed_json v =
     ((case property v (js ''success'') of Some (JBool b) \<Rightarrow> True | _ \<Rightarrow> False)
      \<and> (case property v (js ''message'') of Some (JString m) \<Rightarrow> m \<noteq> [] | _ \<Rightarrow> False))"

definition wellformed :: "analysis \<Rightarrow> bool" where
  "wellformed a =
     (case a of Unchecked v \<Rightarrow> wellformed_json v | Synthesized r \<Rightarrow> message r \<noteq> [])"

section \<open>App.tsx: the application state\<close>

datatype Tab = classroom | practice

text \<open>
  The three operations of the service that \<open>App\<close> awaits, by how each call settles.
  \<open>generateReferenceImage\<close> and \<open>createLessonFromIntent\<close> are not modelled further.
\<close>

record aiService =
  svc_analyzeHandShape :: "js_string \<Rightarrow> js_string \<Rightarrow> js_string option \<Rightarrow> FeedbackResponse promise"
  svc_generateReferenceImage :: "js_string \<Rightarrow> js_string \<Rightarrow> js_string promise"
  svc_createLessonFromIntent :: "js_string \<Rightarrow> Lesson promise"

text \<open>A call to the service that a handler has started, with its arguments.\<close>

datatype call =
    AnalyzeCall js_string js_string "js_string option"
  | ImageCall js_string js_string
  | LessonCall js_string

text \<open>
  The \<^verbatim>\<open>useState\<close> cells of \<open>App\<close> that the classroom uses, the progress record of
  \<open>useProgress\<close>, and \<open>started\<close>, the calls to the service started so far (not a cell
  of the source: it records the effects).
\<close>

record App =
  progress :: StudentProgress
  activeTab :: Tab
  currentLesson :: Lesson
  lessonQueue :: "Lesson list"
  appState :: AppState
  refImage :: "js_string option"
  feedback :: "FeedbackResponse option"
  isAutoMode :: bool
  isMicOn :: bool
  lastSpokenCommand :: "js_string option"
  customSentence :: js_string
  started :: "call list"

subsection \<open>loadLesson\<close>

text \<open>The part before the \<^verbatim>\<open>await\<close>, and the part after it.\<close>

definition loadLesson_begin :: "Lesson \<Rightarrow> App \<Rightarrow> App" where
  "loadLesson_begin lesson s =
     s\<lparr> currentLesson := lesson, appState := GENERATING_REF, feedback := None,
        started := started s @ [ImageCall (prompt lesson) (js ''1:1'')] \<rparr>"

definition loadLesson_settle :: "js_string promise \<Rightarrow> App \<Rightarrow> App" where
  "loadLesson_settle r s =
     (case r of
        Resolved url \<Rightarrow> s\<lparr> refImage := Some url, appState := WAITING_FOR_USER \<rparr>
      | Rejected \<Rightarrow> s\<lparr> appState := IDLE \<rparr>)"

definition loadLesson :: "aiService \<Rightarrow> Lesson \<Rightarrow> App \<Rightarrow> App" where
  "loadLesson svc lesson s =
     loadLesson_settle (svc_generateReferenceImage svc (prompt lesson) (js ''1:1''))
       (loadLesson_begin lesson s)"

subsection \<open>performAnalysis, handleCapture and the auto-check\<close>

text \<open>
  A handler reads the state of the render that created it; \<open>s\<close> is that state, taken to
  be the current one.
\<close>

definition performAnalysis_begin :: "js_string \<Rightarrow> js_string option \<Rightarrow> App \<Rightarrow> App" where
  "performAnalysis_begin imageSrc spokenText s =
     s\<lparr> appState := ANALYZING, feedback := None,
        started := started s @ [AnalyzeCall (target (currentLesson s)) imageSrc spokenText] \<rparr>"

text \<open>
  After the \<^verbatim>\<open>await\<close>; \<open>tgt\<close> is \<^verbatim>\<open>currentLesson.target\<close> of the render that
  started the call.
\<close>

definition performAnalysis_settle :: "FeedbackResponse promise \<Rightarrow> js_string \<Rightarrow> App \<Rightarrow> App" where
  "performAnalysis_settle r tgt s =
     (case r of
        Resolved result \<Rightarrow>
          (if success result then
             s\<lparr> feedback := Some result, appState := SUCCESS,
                progress := markLearned tgt (addXP (Finite 50) (progress s)) \<rparr>
           else s\<lparr> feedback := Some result, appState := FEEDBACK \<rparr>)
      | Rejected \<Rightarrow> s\<lparr> appState := WAITING_FOR_USER \<rparr>)"

definition performAnalysis :: "aiService \<Rightarrow> js_string \<Rightarrow> js_string option \<Rightarrow> App \<Rightarrow> App" where
  "performAnalysis svc imageSrc spokenText s =
     (if appState s = ANALYZING \<or> appState s = GENERATING_REF then s
      else performAnalysis_settle
             (svc_analyzeHandShape svc (target (currentLesson s)) imageSrc spokenText)
             (target (currentLesson s))
             (performAnalysis_begin imageSrc spokenText s))"

text \<open>\<open>screenshot\<close> is what \<^verbatim>\<open>webcamRef.current?.getScreenshot()\<close> gives.\<close>

definition handleCapture :: "aiService \<Rightarrow> js_string option \<Rightarrow> App \<Rightarrow> App" where
  "handleCapture svc screenshot s =
     (if appState s \<noteq> WAITING_FOR_USER \<and> appState s \<noteq> FEEDBACK \<and> appState s \<noteq> SUCCESS then s
      else (case screenshot of
              None \<Rightarrow> s
            | Some imageSrc \<Rightarrow> if imageSrc = [] then s else performAnalysis svc imageSrc None s))"

text \<open>
  One tick of the 3.5 second interval of the auto-check effect; the interval exists only
  under the effect's condition.
\<close>

definition autoCheck_tick :: "aiService \<Rightarrow> js_string option \<Rightarrow> App \<Rightarrow> App" where
  "autoCheck_tick svc screenshot s =
     (if isAutoMode s \<and> activeTab s = classroom
         \<and> (appState s = WAITING_FOR_USER \<or> appState s = FEEDBACK \<or> appState s = SUCCESS)
      then (case screenshot of
              None \<Rightarrow> s
            | Some imageSrc \<Rightarrow> if imageSrc = [] then s else performAnalysis svc imageSrc None s)
      else s)"

subsection \<open>Interleaving\<close>

text \<open>
  A handler runs up to its \<^verbatim>\<open>await\<close>; the part after it runs when the awaited call
  settles, and other handlers may run in between. \<open>performAnalysis_call\<close> is
  \<open>performAnalysis\<close> up to its \<^verbatim>\<open>await\<close>, guard included.
\<close>

definition performAnalysis_call :: "js_string \<Rightarrow> js_string option \<Rightarrow> App \<Rightarrow> App" where
  "performAnalysis_call imageSrc spokenText s =
     (if appState s = ANALYZING \<or> appState s = GENERATING_REF then s
      else performAnalysis_begin imageSrc spokenText s)"

text \<open>
  The steps of a schedule: a submission up to its \<^verbatim>\<open>await\<close>, the settling of an
  analysis (with the target its submission read), a call of \<open>loadLesson\<close> up to its
  \<^verbatim>\<open>await\<close>, and the settling of its image request.
\<close>

datatype step =
    Submits js_string "js_string option"
  | AnalysisSettles "FeedbackResponse promise" js_string
  | Loads Lesson
  | ImageSettles "js_string promise"

text \<open>
  Running a schedule from a state; the number counts the analyses in flight, started and
  not yet settled.
\<close>

fun run :: "step list \<Rightarrow> App \<Rightarrow> nat \<Rightarrow> App \<times> nat" where
  "run [] s n = (s, n)"
| "run (Submits imageSrc spokenText # rest) s n =
     run rest (performAnalysis_call imageSrc spokenText s)
       (if appState s = ANALYZING \<or> appState s = GENERATING_REF then n else Suc n)"
| "run (AnalysisSettles r tgt # rest) s n = run rest (performAnalysis_settle r tgt s) (n - 1)"
| "run (Loads lesson # rest) s n = run rest (loadLesson_begin lesson s) n"
| "run (ImageSettles r # rest) s n = run rest (loadLesson_settle r s) n"

subsection \<open>Navigation\<close>

text \<open>\<^verbatim>\<open>Array.prototype.findIndex\<close>: the first index that satisfies, or -1.\<close>

fun findIndex :: "('a \<Rightarrow> bool) \<Rightarrow> 'a list \<Rightarrow> int" where
  "findIndex P [] = - 1"
| "findIndex P (x # xs) =
     (if P x then 0 else (let i = findIndex P xs in if i < 0 then - 1 else i + 1))"

text \<open>
  \<open>handleNext\<close>: on an empty queue \<^verbatim>\<open>(idx + 1) % 0\<close> is \<^verbatim>\<open>NaN\<close> and the lesson read
  is \<^verbatim>\<open>undefined\<close>, which is no state of this model: \<open>None\<close>. Otherwise \<open>idx + 1\<close> is
  not negative, where \<^verbatim>\<open>%\<close> is \<open>mod\<close>.
\<close>

definition handleNext :: "aiService \<Rightarrow> App \<Rightarrow> App option" where
  "handleNext svc s =
     (let idx = findIndex (\<lambda>l. id_lesson l = id_lesson (currentLesson s)) (lessonQueue s) in
      if lessonQueue s = [] then None
      else (let nextIndex = (idx + 1) mod int (length (lessonQueue s))
            in Some (loadLesson svc (lessonQueue s ! nat nextIndex) s)))"

definition handlePrevious :: "aiService \<Rightarrow> App \<Rightarrow> App" where
  "handlePrevious svc s =
     (let idx = findIndex (\<lambda>l. id_lesson l = id_lesson (currentLesson s)) (lessonQueue s);
          prevIndex = idx - 1
      in if prevIndex \<ge> 0 then loadLesson svc (lessonQueue s ! nat prevIndex) s else s)"

definition handleRetry :: "App \<Rightarrow> App" where
  "handleRetry s = s\<lparr> appState := WAITING_FOR_USER, feedback := None \<rparr>"

subsection \<open>processVoiceCommand\<close>

text \<open>
  \<open>toLowerCase\<close> is \<^verbatim>\<open>String.prototype.toLowerCase\<close> of the host (Unicode case
  mapping), a parameter. The timer that clears \<open>lastSpokenCommand\<close> after three seconds
  is left out. \<open>loadLesson\<close> catches its own failure, so the \<^verbatim>\<open>catch\<close> of the
  teach branch is reached only when \<open>createLessonFromIntent\<close> rejects.
\<close>

text \<open>The conditions of the four \<^verbatim>\<open>if\<close> statements, on the lowered transcript.\<close>

definition says_next :: "js_string \<Rightarrow> bool" where
  "says_next lower =
     (includes_str lower (js ''next lesson'') \<or> includes_str lower (js ''move to next'')
      \<or> includes_str lower (js ''skip''))"

definition says_previous :: "js_string \<Rightarrow> bool" where
  "says_previous lower =
     (includes_str lower (js ''previous lesson'') \<or> includes_str lower (js ''go back''))"

definition says_repeat :: "js_string \<Rightarrow> bool" where
  "says_repeat lower =
     (includes_str lower (js ''again'') \<or> includes_str lower (js ''repeat'')
      \<or> includes_str lower (js ''restart''))"

definition says_teach :: "js_string \<Rightarrow> bool" where
  "says_teach lower =
     (includes_str lower (js ''how to'') \<or> includes_str lower (js ''show me'')
      \<or> includes_str lower (js ''teach me''))"

text \<open>The teach branch: the new lesson is appended to the queue and loaded.\<close>

definition teachLesson :: "aiService \<Rightarrow> js_string \<Rightarrow> App \<Rightarrow> App" where
  "teachLesson svc transcript s =
     (let s1 = s\<lparr> appState := GENERATING_REF,
                   feedback := Some \<lparr> success = False,
                     message = js ''Generative Teacher: Creating lesson for '' @ dquote
                       @ transcript @ dquote @ js ''...'',
                     correctionPrompt = None \<rparr>,
                   started := started s @ [LessonCall transcript] \<rparr>
      in case svc_createLessonFromIntent svc transcript of
           Resolved newLesson \<Rightarrow>
             loadLesson svc newLesson (s1\<lparr> lessonQueue := lessonQueue s1 @ [newLesson] \<rparr>)
         | Rejected \<Rightarrow>
             s1\<lparr> appState := WAITING_FOR_USER,
                 feedback := Some \<lparr> success = False,
                   message = js ''Sorry, I couldn'' @ apos @ js ''t generate that lesson.'',
                   correctionPrompt = None \<rparr> \<rparr>)"

text \<open>The last branch: the transcript goes with a captured frame into the analysis.\<close>

definition askQuestion :: "aiService \<Rightarrow> js_string option \<Rightarrow> js_string \<Rightarrow> App \<Rightarrow> App" where
  "askQuestion svc screenshot transcript s =
     (case screenshot of
        None \<Rightarrow> s
      | Some imageSrc \<Rightarrow>
          if imageSrc = [] then s else performAnalysis svc imageSrc (Some transcript) s)"

definition processVoiceCommand ::
  "aiService \<Rightarrow> (js_string \<Rightarrow> js_string) \<Rightarrow> js_string option \<Rightarrow> js_string \<Rightarrow> App \<Rightarrow> App option" where
  "processVoiceCommand svc toLowerCase screenshot transcript s =
     (let lower = toLowerCase transcript;
          s0 = s\<lparr> lastSpokenCommand := Some transcript \<rparr>
      in
      if says_next lower then handleNext svc s0
      else if says_previous lower then Some (handlePrevious svc s0)
      else if says_repeat lower then Some (loadLesson svc (currentLesson s0) s0)
      else if says_teach lower then Some (teachLesson svc transcript s0)
      else Some (askQuestion svc screenshot transcript s0))"

subsection \<open>handleSentenceSubmit\<close>

text \<open>
  White space as \<^verbatim>\<open>\s\<close> and \<^verbatim>\<open>trim()\<close> read it: tab, line feed, vertical tab,
  form feed, carriage return, space, U+00A0, U+1680, U+2000 to U+200A, U+2028, U+2029,
  U+202F, U+205F, U+3000 and U+FEFF.
\<close>

definition is_space :: "nat \<Rightarrow> bool" where
  "is_space c =
     (c \<in> {9, 10, 11, 12, 13, 32, 160, 5760, 8232, 8233, 8239, 8287, 12288, 65279}
      \<or> (8192 \<le> c \<and> c \<le> 8202))"

definition trim :: "js_string \<Rightarrow> js_string" where
  "trim x = rev (dropWhile is_space (rev (dropWhile is_space x)))"

text \<open>
  \<^verbatim>\<open>split(/\s+/)\<close>: the pieces between the maximal runs of white space; a run at
  the start or the end leaves an empty piece there, and the empty string gives one empty
  piece.
\<close>

fun split_spaces :: "js_string \<Rightarrow> js_string list" where
  "split_spaces [] = [[]]"
| "split_spaces (c # cs) =
     (if is_space c then
        (case cs of
           [] \<Rightarrow> [[], []]
         | c' # _ \<Rightarrow> if is_space c' then split_spaces cs else [] # split_spaces cs)
      else
        (case split_spaces cs of
           [] \<Rightarrow> [[c]]
         | w # ws \<Rightarrow> (c # w) # ws))"

declare split_spaces.simps(2) [simp del]

text \<open>The class \<^verbatim>\<open>[A-Za-z]\<close>; \<^verbatim>\<open>replace(/[^A-Za-z]/g, '')\<close> keeps its members.\<close>

definition is_letter :: "nat \<Rightarrow> bool" where
  "is_letter c = ((65 \<le> c \<and> c \<le> 90) \<or> (97 \<le> c \<and> c \<le> 122))"

text \<open>
  \<^verbatim>\<open>toUpperCase()\<close> as it acts on a string of the letters above, the only strings
  the source applies it to.
\<close>

definition toUpperCase_letters :: "js_string \<Rightarrow> js_string" where
  "toUpperCase_letters w = map (\<lambda>c. if 97 \<le> c \<and> c \<le> 122 then c - 32 else c) w"

text \<open>
  The callback of \<^verbatim>\<open>rawWords.map\<close>: \<open>None\<close> is its \<^verbatim>\<open>null\<close>. \<open>now\<close> is what
  \<^verbatim>\<open>Date.now()\<close> returns in this call and \<open>len\<close> is \<^verbatim>\<open>rawWords.length\<close>.
\<close>

definition lessonOfWord :: "nat \<Rightarrow> nat \<Rightarrow> nat \<Rightarrow> js_string \<Rightarrow> Lesson option" where
  "lessonOfWord now len index rawWord =
     (let word = toUpperCase_letters (filter is_letter rawWord) in
      if word = [] then None
      else
        (let isWord = length word > 1 in
         Some \<lparr> id_lesson = js ''seq-'' @ show_nat now @ js ''-'' @ show_nat index,
                target = word,
                description = js ''Step '' @ show_nat (index + 1) @ js '' of '' @ show_nat len
                  @ js '': Sign '' @ apos @ word @ apos,
                difficulty = (if isWord then Intermediate else Beginner),
                prompt =
                  (if isWord then
                     js ''educational infographic illustration of hands signing the word '' @ dquote
                       @ word @ dquote
                       @ js '' in ASL, showing motion lines, arrows indicating movement, and facial expression if necessary, photorealistic style, white background''
                   else
                     js ''photorealistic close-up of a hand signing ASL letter '' @ word
                       @ js '', neutral background, 4k'') \<rparr>))"

text \<open>
  \<open>newLessons\<close> of a sentence that is not blank; \<open>clock i\<close> is the value of
  \<^verbatim>\<open>Date.now()\<close> when the callback runs at index \<open>i\<close>.
\<close>

definition newLessons :: "(nat \<Rightarrow> nat) \<Rightarrow> js_string \<Rightarrow> Lesson list" where
  "newLessons clock sentence =
     (let rawWords = split_spaces (trim sentence) in
      List.map_filter (\<lambda>(index, rawWord). lessonOfWord (clock index) (length rawWords) index rawWord)
        (enumerate 0 rawWords))"

text \<open>
  \<open>loadLesson\<close> is not awaited: the two updates after the call follow the part of
  \<open>loadLesson\<close> before its \<^verbatim>\<open>await\<close>, and the image settles after them.
\<close>

definition handleSentenceSubmit :: "aiService \<Rightarrow> (nat \<Rightarrow> nat) \<Rightarrow> App \<Rightarrow> App" where
  "handleSentenceSubmit svc clock s =
     (if trim (customSentence s) = [] then s
      else
        (case newLessons clock (customSentence s) of
           [] \<Rightarrow> s
         | first # rest \<Rightarrow>
             (let s1 = loadLesson_begin first (s\<lparr> lessonQueue := first # rest \<rparr>);
                  s2 = s1\<lparr> customSentence := [],
                            feedback := Some \<lparr> success = False,
                              message = js ''Queue updated! We will go word by word. First up: ''
                                @ dquote @ target first @ dquote,
                              correctionPrompt = None \<rparr> \<rparr>
              in loadLesson_settle (svc_generateReferenceImage svc (prompt first) (js ''1:1'')) s2)))"

section \<open>Example environments\<close>

text \<open>
  Concrete hosts and states for the closed theorems. Each example host gives what
  \<^verbatim>\<open>JSON.parse\<close> gives at the texts the examples read; no theorem with a free
  \<open>JSON_parse\<close> depends on them.
\<close>

definition example_progress :: StudentProgress where
  "example_progress =
     \<lparr> xp = Finite 50, level = Beginner, streakDays = Finite 1, learnedSigns = [js ''A''] \<rparr>"

text \<open>The text \<^verbatim>\<open>{"xp":50,"level":"Beginner","streakDays":1,"learnedSigns":["A"]}\<close>.\<close>

definition example_progress_text :: js_string where
  "example_progress_text =
     js ''{'' @ dquote @ js ''xp'' @ dquote @ js '':50,'' @ dquote @ js ''level'' @ dquote @ js '':''
       @ dquote @ js ''Beginner'' @ dquote @ js '','' @ dquote @ js ''streakDays'' @ dquote
       @ js '':1,'' @ dquote @ js ''learnedSigns'' @ dquote @ js '':['' @ dquote @ js ''A''
       @ dquote @ js '']}''"

text \<open>
  At the record's text the record; at the text \<^verbatim>\<open>{\<close>, which is no JSON, a
  \<^verbatim>\<open>SyntaxError\<close>.
\<close>

definition example_parse_progress :: "js_string \<Rightarrow> StudentProgress option" where
  "example_parse_progress t = (if t = example_progress_text then Some example_progress else None)"

definition example_stringify_progress :: "StudentProgress \<Rightarrow> js_string" where
  "example_stringify_progress p = (if p = example_progress then example_progress_text else js ''{}'')"

text \<open>
  At the text \<^verbatim>\<open>{}\<close> the empty object; at the text \<^verbatim>\<open>oops\<close>, which is no
  JSON, a \<^verbatim>\<open>SyntaxError\<close>.
\<close>

definition example_parse :: "js_string \<Rightarrow> json option" where
  "example_parse t = (if t = js ''{}'' then Some (JObject []) else None)"

text \<open>\<^verbatim>\<open>toLowerCase()\<close> as it acts on ASCII text.\<close>

definition example_toLowerCase :: "js_string \<Rightarrow> js_string" where
  "example_toLowerCase t = map (\<lambda>c. if 65 \<le> c \<and> c \<le> 90 then c + 32 else c) t"

definition example_draws :: draws where
  "example_draws = \<lparr> isSuccess = True, errorPick = Pick0 \<rparr>"

text \<open>
  A service without an API key: every analysis resolves with the fallback response. Its
  image requests resolve with one placeholder address and its lesson requests with one
  generic lesson.
\<close>

definition example_service :: aiService where
  "example_service =
     \<lparr> svc_analyzeHandShape = (\<lambda>tgt imageSrc spoken. Resolved (mockFallback tgt spoken example_draws)),
       svc_generateReferenceImage = (\<lambda>p aspect. Resolved (js ''https://placehold.co/800x800'')),
       svc_createLessonFromIntent = (\<lambda>t. Resolved
          \<lparr> id_lesson = js ''dyn-0'', target = js ''Custom Sign'',
            description = js ''generic practice helper'', difficulty = Beginner,
            prompt = js ''photorealistic hands signing ASL alphabet'' \<rparr>) \<rparr>"

text \<open>The state of \<open>App\<close> at its first render, with the default progress record.\<close>

definition initial_App :: App where
  "initial_App =
     \<lparr> progress = INITIAL_PROGRESS, activeTab = classroom,
       currentLesson = ALPHABET_LESSONS ! 0,
       lessonQueue = ALPHABET_LESSONS, appState = IDLE, refImage = None, feedback = None,
       isAutoMode = False, isMicOn = False, lastSpokenCommand = None, customSentence = [],
       started = [] \<rparr>"

section \<open>Properties of numbers\<close>

lemma ulp_exp_small: "a < 2 ^ 53 \<Longrightarrow> ulp_exp a = 0"
  by (simp add: ulp_exp.simps)

lemma ulp_exp_big: "\<not> a < 2 ^ 53 \<Longrightarrow> ulp_exp a = Suc (ulp_exp (a div 2))"
  by (subst ulp_exp.simps) simp

lemma ulp_exp_upper: "a < 2 ^ 53 * 2 ^ ulp_exp a"
proof (induction a rule: ulp_exp.induct)
  case (1 a)
  show ?case
  proof (cases "a < 2 ^ 53")
    case True
    then show ?thesis by (simp add: ulp_exp_small)
  next
    case False
    then have "a div 2 < 2 ^ 53 * 2 ^ ulp_exp (a div 2)" using 1 by simp
    then have "a < 2 * (2 ^ 53 * 2 ^ ulp_exp (a div 2))" by linarith
    then show ?thesis using False by (simp add: ulp_exp_big)
  qed
qed

lemma ulp_exp_lower: "2 ^ 53 \<le> a \<Longrightarrow> 2 ^ 52 * 2 ^ ulp_exp a \<le> a"
proof (induction a rule: ulp_exp.induct)
  case (1 a)
  from "1.prems" have big: "\<not> a < 2 ^ 53" by simp
  show ?case
  proof (cases "a div 2 < 2 ^ 53")
    case True
    then have "ulp_exp a = 1" using big by (simp add: ulp_exp_big ulp_exp_small)
    then show ?thesis using "1.prems" by simp
  next
    case False
    then have "2 ^ 52 * 2 ^ ulp_exp (a div 2) \<le> a div 2" using 1 big by simp
    then have "2 * (2 ^ 52 * 2 ^ ulp_exp (a div 2)) \<le> a" by linarith
    then show ?thesis using big by (simp add: ulp_exp_big)
  qed
qed

lemma round_nat_exact: "a \<le> 2 ^ 53 \<Longrightarrow> round_nat a = a"
proof (cases "a < 2 ^ 53")
  case True
  then show ?thesis by (simp add: round_nat_def)
next
  case False
  assume "a \<le> 2 ^ 53"
  with False have a: "a = 2 ^ 53" by simp
  have "ulp_exp a = 1" unfolding a by (simp add: ulp_exp_big ulp_exp_small)
  then show ?thesis unfolding a by (simp add: round_nat_def)
qed

lemma pow_step: "e' < e \<Longrightarrow> 2 * (2::nat) ^ e' \<le> 2 ^ e"
proof -
  assume "e' < e"
  then have "Suc e' \<le> e" by simp
  then have "(2::nat) ^ Suc e' \<le> 2 ^ e" by (rule power_increasing) simp
  then show ?thesis by simp
qed

lemma ulp_exp_pos: "2 ^ 53 \<le> a \<Longrightarrow> 0 < ulp_exp a"
  by (simp add: ulp_exp_big)

lemma ulp_exp_unique:
  assumes "2 ^ 52 * 2 ^ e \<le> a" and "a < 2 ^ 53 * 2 ^ e" and "0 < e"
  shows "ulp_exp a = e"
proof -
  have "2 * (2::nat) ^ 0 \<le> 2 ^ e" using assms(3) by (rule pow_step)
  then have big: "2 ^ 53 \<le> a" using assms(1) by simp
  have up: "a < 2 ^ 53 * 2 ^ ulp_exp a" by (rule ulp_exp_upper)
  have lo: "2 ^ 52 * 2 ^ ulp_exp a \<le> a" using big by (rule ulp_exp_lower)
  show ?thesis
  proof (rule ccontr)
    assume "ulp_exp a \<noteq> e"
    then consider "ulp_exp a < e" | "e < ulp_exp a" by linarith
    then show False
    proof cases
      case 1
      then have "2 * (2::nat) ^ ulp_exp a \<le> 2 ^ e" by (rule pow_step)
      then have "2 ^ 53 * 2 ^ ulp_exp a \<le> 2 ^ 52 * (2::nat) ^ e" by simp
      with up assms(1) show False by linarith
    next
      case 2
      then have "2 * (2::nat) ^ e \<le> 2 ^ ulp_exp a" by (rule pow_step)
      then have "2 ^ 53 * 2 ^ e \<le> 2 ^ 52 * (2::nat) ^ ulp_exp a" by simp
      with lo assms(2) show False by linarith
    qed
  qed
qed

lemma ulp_exp_mono: "a \<le> b \<Longrightarrow> ulp_exp a \<le> ulp_exp b"
proof (cases "a < 2 ^ 53")
  case True
  then show ?thesis by (simp add: ulp_exp_small)
next
  case False
  assume ab: "a \<le> b"
  from False have a53: "2 ^ 53 \<le> a" by simp
  have lo: "2 ^ 52 * 2 ^ ulp_exp a \<le> a" using a53 by (rule ulp_exp_lower)
  have up: "b < 2 ^ 53 * 2 ^ ulp_exp b" by (rule ulp_exp_upper)
  show ?thesis
  proof (rule ccontr)
    assume "\<not> ulp_exp a \<le> ulp_exp b"
    then have "ulp_exp b < ulp_exp a" by simp
    then have "2 * (2::nat) ^ ulp_exp b \<le> 2 ^ ulp_exp a" by (rule pow_step)
    then have "2 ^ 53 * 2 ^ ulp_exp b \<le> 2 ^ 52 * (2::nat) ^ ulp_exp a" by simp
    with lo up ab show False by linarith
  qed
qed

lemma round_nat_floor: "2 ^ 53 \<le> a \<Longrightarrow> (a div 2 ^ ulp_exp a) * 2 ^ ulp_exp a \<le> round_nat a"
  by (simp add: round_nat_def Let_def)

lemma round_nat_dvd: "2 ^ 53 \<le> a \<Longrightarrow> 2 ^ ulp_exp a dvd round_nat a"
  by (simp add: round_nat_def Let_def)

lemma quotient_lower: "2 ^ 53 \<le> a \<Longrightarrow> 2 ^ 52 \<le> a div 2 ^ ulp_exp a"
proof -
  assume "2 ^ 53 \<le> a"
  then have "2 ^ 52 * 2 ^ ulp_exp a \<le> a" by (rule ulp_exp_lower)
  then have "(2 ^ 52 * 2 ^ ulp_exp a) div 2 ^ ulp_exp a \<le> a div 2 ^ ulp_exp a"
    by (rule div_le_mono)
  then show ?thesis by simp
qed

lemma quotient_upper: "a div 2 ^ ulp_exp a < 2 ^ 53"
proof -
  have "a < 2 ^ 53 * 2 ^ ulp_exp a" by (rule ulp_exp_upper)
  then show ?thesis by (simp add: less_mult_imp_div_less)
qed

lemma round_nat_lower:
  assumes "round_nat x = x" and "x \<le> y"
  shows "x \<le> round_nat y"
proof (cases "y < 2 ^ 53")
  case True
  then show ?thesis using assms(2) by (simp add: round_nat_def)
next
  case False
  then have y: "2 ^ 53 \<le> y" by simp
  define u where "u = (2::nat) ^ ulp_exp y"
  have fl: "(y div u) * u \<le> round_nat y" unfolding u_def using y by (rule round_nat_floor)
  have q: "2 ^ 52 \<le> y div u" unfolding u_def using y by (rule quotient_lower)
  have u2: "2 \<le> u"
    unfolding u_def using pow_step [OF ulp_exp_pos [OF y]] by simp
  show ?thesis
  proof (cases "x < 2 ^ 52 * u")
    case True
    have "2 ^ 52 * u \<le> (y div u) * u" using q by simp
    with True fl show ?thesis by linarith
  next
    case False
    then have xb: "2 ^ 52 * u \<le> x" by simp
    with u2 have x53: "2 ^ 53 \<le> x" by simp
    have "ulp_exp x \<le> ulp_exp y" using assms(2) by (rule ulp_exp_mono)
    moreover have "\<not> ulp_exp x < ulp_exp y"
    proof
      assume "ulp_exp x < ulp_exp y"
      then have "2 * (2::nat) ^ ulp_exp x \<le> u" unfolding u_def by (rule pow_step)
      then have "2 ^ 53 * 2 ^ ulp_exp x \<le> 2 ^ 52 * u" by simp
      with ulp_exp_upper [of x] xb show False by linarith
    qed
    ultimately have "ulp_exp x = ulp_exp y" by simp
    then have "u dvd round_nat x" unfolding u_def using round_nat_dvd [OF x53] by simp
    then have "u dvd x" using assms(1) by simp
    then obtain k where k: "x = u * k" ..
    have "0 < u" using u2 by simp
    have "k \<le> y div u"
    proof -
      have "u * k \<le> y" using k assms(2) by simp
      then have "(u * k) div u \<le> y div u" by (rule div_le_mono)
      then show ?thesis using \<open>0 < u\<close> by simp
    qed
    then have "u * k \<le> (y div u) * u" by (simp add: mult.commute)
    with k fl show ?thesis by linarith
  qed
qed

lemma round_nat_of_multiple:
  assumes "2 ^ 52 \<le> q" and "q < 2 ^ 53" and "0 < e"
  shows "round_nat (q * 2 ^ e) = q * 2 ^ e"
proof -
  have lo: "2 ^ 52 * 2 ^ e \<le> q * 2 ^ e" using assms(1) by simp
  have up: "q * 2 ^ e < 2 ^ 53 * 2 ^ e" using assms(2) by simp
  have e: "ulp_exp (q * 2 ^ e) = e" using lo up assms(3) by (rule ulp_exp_unique)
  have "2 * (2::nat) ^ 0 \<le> 2 ^ e" using assms(3) by (rule pow_step)
  then have "2 ^ 53 \<le> 2 ^ 52 * (2::nat) ^ e" by simp
  with lo have big: "\<not> q * 2 ^ e < 2 ^ 53" by linarith
  show ?thesis
    unfolding round_nat_def using big by (simp add: e Let_def)
qed

lemma round_nat_idem: "round_nat (round_nat a) = round_nat a"
proof (cases "a < 2 ^ 53")
  case True
  then show ?thesis by (simp add: round_nat_def)
next
  case False
  then have a: "2 ^ 53 \<le> a" by simp
  define e where "e = ulp_exp a"
  define q where "q = a div 2 ^ e"
  have e0: "0 < e" unfolding e_def using a by (rule ulp_exp_pos)
  have ql: "2 ^ 52 \<le> q" unfolding q_def e_def using a by (rule quotient_lower)
  have qu: "q < 2 ^ 53" unfolding q_def e_def by (rule quotient_upper)
  have cases: "round_nat a = q * 2 ^ e \<or> round_nat a = (q + 1) * 2 ^ e"
    using False by (simp add: round_nat_def Let_def e_def q_def)
  then show ?thesis
  proof
    assume r: "round_nat a = q * 2 ^ e"
    show ?thesis unfolding r using ql qu e0 by (rule round_nat_of_multiple)
  next
    assume r: "round_nat a = (q + 1) * 2 ^ e"
    show ?thesis
    proof (cases "q + 1 < 2 ^ 53")
      case True
      have "2 ^ 52 \<le> q + 1" using ql by simp
      then show ?thesis unfolding r using True e0 by (rule round_nat_of_multiple)
    next
      case False
      with qu have q1: "q + 1 = 2 ^ 53" by simp
      have "(q + 1) * 2 ^ e = 2 ^ 52 * 2 ^ Suc e" unfolding q1 by simp
      moreover have "round_nat (2 ^ 52 * 2 ^ Suc e) = 2 ^ 52 * 2 ^ Suc e"
        by (rule round_nat_of_multiple) simp_all
      ultimately show ?thesis unfolding r by simp
    qed
  qed
qed

lemma round_double_nonneg: "0 \<le> r \<Longrightarrow> round_double r = int (round_nat (nat r))"
  by (cases "r = 0") (simp_all add: round_double_def round_nat_def)

lemma pow_53_1024: "(2::int) ^ 53 < 2 ^ 1024"
  by (rule power_strict_increasing) simp_all

lemma number_of_exact_small:
  assumes "0 \<le> r" and "r \<le> 2 ^ 53"
  shows "number_of_exact r = Finite r"
proof -
  have "nat r \<le> 2 ^ 53" using assms by (simp add: nat_le_iff)
  then have "round_nat (nat r) = nat r" by (rule round_nat_exact)
  then have v: "round_double r = r" using assms(1) by (simp add: round_double_nonneg)
  have "r < 2 ^ 1024" using assms(2) pow_53_1024 by linarith
  then show ?thesis using assms(1) by (simp add: number_of_exact_def v)
qed

lemma number_of_exact_grows:
  assumes "round_double x = x" and "0 \<le> x" and "x \<le> r"
  shows "Number_le (Finite x) (number_of_exact r)
    \<and> is_double (number_of_exact r) \<and> Number_le (Finite 0) (number_of_exact r)"
proof -
  have r0: "0 \<le> r" using assms by simp
  define v where "v = round_double r"
  have v: "v = int (round_nat (nat r))" unfolding v_def using r0 by (rule round_double_nonneg)
  have "round_nat (nat x) = nat x"
    using assms(1,2) by (simp add: round_double_nonneg)
  moreover have "nat x \<le> nat r" using assms(3) by simp
  ultimately have "nat x \<le> round_nat (nat r)" by (rule round_nat_lower)
  then have xv: "x \<le> v" using v assms(2) by simp
  have idem: "round_double v = v"
    unfolding v by (simp add: round_double_nonneg round_nat_idem)
  show ?thesis
  proof (cases "2 ^ 1024 \<le> v")
    case True
    then show ?thesis by (simp add: number_of_exact_def v_def [symmetric] is_double_def)
  next
    case False
    moreover have "\<not> v \<le> - (2 ^ 1024)" using xv assms(2) by simp
    ultimately have "number_of_exact r = Finite v"
      by (simp add: number_of_exact_def v_def [symmetric])
    then show ?thesis using xv assms(2) idem False by (simp add: is_double_def)
  qed
qed

lemma Number_add_grows:
  assumes "is_double x" and "Number_le (Finite 0) x" and "Number_le (Finite 0) a"
  shows "Number_le x (Number_add x a) \<and> is_double (Number_add x a)
    \<and> Number_le (Finite 0) (Number_add x a)"
proof (cases x)
  case (Finite i)
  show ?thesis
  proof (cases a)
    case (Finite j)
    have "round_double i = i" "0 \<le> i" "i \<le> i + j"
      using assms \<open>x = Finite i\<close> Finite by (simp_all add: is_double_def)
    then show ?thesis
      unfolding \<open>x = Finite i\<close> Finite Number_add.simps by (rule number_of_exact_grows)
  next
    case PosInfinity
    then show ?thesis using \<open>x = Finite i\<close> by (simp add: is_double_def)
  next
    case NegInfinity
    then show ?thesis using assms(3) by simp
  next
    case NaN
    then show ?thesis using assms(3) by simp
  qed
next
  case PosInfinity
  then show ?thesis using assms(3) by (cases a) (simp_all add: is_double_def)
next
  case NegInfinity
  then show ?thesis using assms(2) by simp
next
  case NaN
  then show ?thesis using assms(2) by simp
qed

lemma Number_le_trans: "Number_le x y \<Longrightarrow> Number_le y z \<Longrightarrow> Number_le x z"
  by (cases x; cases y; cases z) simp_all

lemma Number_le_refl: "Number_le (Finite 0) x \<Longrightarrow> Number_le x x"
  by (cases x) simp_all

section \<open>Properties of the progress store\<close>

lemma xp_addXP: "xp (addXP amount p) = Number_add (xp p) amount"
  by (simp add: addXP_def)

lemma fold_addXP_grows:
  "is_double (xp p) \<Longrightarrow> Number_le (Finite 0) (xp p) \<Longrightarrow> \<forall>a\<in>set amounts. Number_le (Finite 0) a
   \<Longrightarrow> Number_le (xp p) (xp (fold addXP amounts p))"
proof (induction amounts arbitrary: p)
  case Nil
  then show ?case by (simp add: Number_le_refl)
next
  case (Cons a amounts)
  have a: "Number_le (Finite 0) a" using Cons.prems(3) by simp
  note step = Number_add_grows [OF Cons.prems(1,2) a]
  have "Number_le (xp (addXP a p)) (xp (fold addXP amounts (addXP a p)))"
  proof (rule Cons.IH)
    show "is_double (xp (addXP a p))" using step by (simp add: xp_addXP)
    show "Number_le (Finite 0) (xp (addXP a p))" using step by (simp add: xp_addXP)
    show "\<forall>a\<in>set amounts. Number_le (Finite 0) a" using Cons.prems(3) by simp
  qed
  moreover have "Number_le (xp p) (xp (addXP a p))" using step by (simp add: xp_addXP)
  ultimately show ?case using Number_le_trans by simp
qed

lemma Number_add_small:
  "0 \<le> a \<Longrightarrow> 0 \<le> b \<Longrightarrow> a + b \<le> 2 ^ 53 \<Longrightarrow> Number_add (Finite a) (Finite b) = Finite (a + b)"
  by (simp add: number_of_exact_small)

text \<open>
  Claim C8, as amended. For XP and amounts that are non-negative integers with a total of
  at most \<open>2 ^ 53\<close>, where the addition of numbers is exact, \<open>addXP m\<close> then \<open>addXP n\<close>
  gives the record that \<open>addXP (m + n)\<close> gives, in either order, and the amounts 50, 50
  give the XP that the single amount 100 gives. From any non-negative XP, a sequence of
  calls with non-negative amounts never leaves less XP than it started from.
\<close>

theorem addXP_additive:
  "(xp p = Finite x \<and> 0 \<le> x \<and> 0 \<le> m \<and> 0 \<le> n \<and> x + m + n \<le> 2 ^ 53
      \<longrightarrow> addXP (Finite n) (addXP (Finite m) p) = addXP (Number_add (Finite m) (Finite n)) p
        \<and> Number_add (Finite m) (Finite n) = Finite (m + n)
        \<and> addXP (Finite n) (addXP (Finite m) p) = addXP (Finite m) (addXP (Finite n) p)
        \<and> xp (addXP (Finite m) p) = Finite (x + m)
        \<and> xp (addXP (Finite n) (addXP (Finite m) p)) = Finite (x + m + n))
   \<and> (xp p = Finite x \<and> 0 \<le> x \<and> x + 100 \<le> 2 ^ 53
      \<longrightarrow> xp (fold addXP [Finite 50, Finite 50] p) = xp (fold addXP [Finite 100] p))
   \<and> (is_double (xp p) \<and> Number_le (Finite 0) (xp p) \<and> (\<forall>a\<in>set amounts. Number_le (Finite 0) a)
      \<longrightarrow> Number_le (xp p) (xp (fold addXP amounts p)))"
proof (intro conjI impI)
  assume h: "xp p = Finite x \<and> 0 \<le> x \<and> 0 \<le> m \<and> 0 \<le> n \<and> x + m + n \<le> 2 ^ 53"
  then have xm: "Number_add (Finite x) (Finite m) = Finite (x + m)"
    and xn: "Number_add (Finite x) (Finite n) = Finite (x + n)"
    and mn: "Number_add (Finite m) (Finite n) = Finite (m + n)"
    and xmn: "Number_add (Finite (x + m)) (Finite n) = Finite (x + m + n)"
    and xnm: "Number_add (Finite (x + n)) (Finite m) = Finite (x + n + m)"
    and x_mn: "Number_add (Finite x) (Finite (m + n)) = Finite (x + (m + n))"
    by (simp_all add: Number_add_small del: Number_add.simps)
  show "Number_add (Finite m) (Finite n) = Finite (m + n)" by (rule mn)
  show "addXP (Finite n) (addXP (Finite m) p) = addXP (Number_add (Finite m) (Finite n)) p"
    using h by (simp add: addXP_def xm xmn mn x_mn add.assoc del: Number_add.simps)
  have l: "addXP (Finite n) (addXP (Finite m) p) = p\<lparr> xp := Finite (x + m + n) \<rparr>"
    using h by (simp add: addXP_def xm xmn del: Number_add.simps)
  have r: "addXP (Finite m) (addXP (Finite n) p) = p\<lparr> xp := Finite (x + n + m) \<rparr>"
    using h by (simp add: addXP_def xn xnm del: Number_add.simps)
  have "x + m + n = x + n + m" by simp
  with l r show "addXP (Finite n) (addXP (Finite m) p) = addXP (Finite m) (addXP (Finite n) p)"
    by simp
  show "xp (addXP (Finite m) p) = Finite (x + m)"
    using h by (simp add: addXP_def xm del: Number_add.simps)
  show "xp (addXP (Finite n) (addXP (Finite m) p)) = Finite (x + m + n)"
    using h by (simp add: addXP_def xm xmn del: Number_add.simps)
next
  assume h: "xp p = Finite x \<and> 0 \<le> x \<and> x + 100 \<le> 2 ^ 53"
  then have "Number_add (Finite x) (Finite 50) = Finite (x + 50)"
    "Number_add (Finite (x + 50)) (Finite 50) = Finite (x + 50 + 50)"
    "Number_add (Finite x) (Finite 100) = Finite (x + 100)"
    by (simp_all add: Number_add_small del: Number_add.simps)
  then show "xp (fold addXP [Finite 50, Finite 50] p) = xp (fold addXP [Finite 100] p)"
    using h by (simp add: addXP_def del: Number_add.simps)
next
  assume "is_double (xp p) \<and> Number_le (Finite 0) (xp p)
    \<and> (\<forall>a\<in>set amounts. Number_le (Finite 0) a)"
  then show "Number_le (xp p) (xp (fold addXP amounts p))"
    by (simp add: fold_addXP_grows)
qed

theorem addXP_additive_witness:
  "addXP (Finite 50) (addXP (Finite 50) INITIAL_PROGRESS) = addXP (Finite 100) INITIAL_PROGRESS
   \<and> xp (addXP (Finite 50) (addXP (Finite 50) INITIAL_PROGRESS)) = Finite 100
   \<and> xp (fold addXP [Finite 50, Finite 50] INITIAL_PROGRESS)
       = xp (fold addXP [Finite 100] INITIAL_PROGRESS)
   \<and> Number_le (xp INITIAL_PROGRESS) (xp (fold addXP [Finite 50, Finite 0, Finite 50] INITIAL_PROGRESS))"
proof -
  have x: "xp INITIAL_PROGRESS = Finite 0"
    by (simp add: INITIAL_PROGRESS_def)
  have d: "is_double (xp INITIAL_PROGRESS)"
    by (simp add: x is_double_def round_double_def)
  have b: "(0::int) + 50 + 50 \<le> 2 ^ 53" "(0::int) + 100 \<le> 2 ^ 53" "(0::int) \<le> 0"
    "(0::int) \<le> 50"
    by simp_all
  have a: "\<forall>a\<in>set [Finite 50, Finite 0, Finite 50]. Number_le (Finite 0) a"
    by simp
  have l: "Number_le (Finite 0) (xp INITIAL_PROGRESS)"
    by (simp add: x)
  note t = addXP_additive [of INITIAL_PROGRESS 0 50 50 "[Finite 50, Finite 0, Finite 50]"]
  have t1: "addXP (Finite 50) (addXP (Finite 50) INITIAL_PROGRESS)
        = addXP (Number_add (Finite 50) (Finite 50)) INITIAL_PROGRESS
      \<and> Number_add (Finite 50) (Finite 50) = Finite (50 + 50)
      \<and> xp (addXP (Finite 50) (addXP (Finite 50) INITIAL_PROGRESS)) = Finite (0 + 50 + 50)"
    using t x b by blast
  have t2: "xp (fold addXP [Finite 50, Finite 50] INITIAL_PROGRESS)
       = xp (fold addXP [Finite 100] INITIAL_PROGRESS)"
    using t x b by blast
  have t3: "Number_le (xp INITIAL_PROGRESS)
      (xp (fold addXP [Finite 50, Finite 0, Finite 50] INITIAL_PROGRESS))"
    using t d l a by blast
  from t1 have e1: "addXP (Finite 50) (addXP (Finite 50) INITIAL_PROGRESS)
        = addXP (Number_add (Finite 50) (Finite 50)) INITIAL_PROGRESS"
    and e2: "Number_add (Finite 50) (Finite 50) = Finite (50 + 50)"
    and e3: "xp (addXP (Finite 50) (addXP (Finite 50) INITIAL_PROGRESS)) = Finite (0 + 50 + 50)"
    by blast+
  have e4: "Number_add (Finite 50) (Finite 50) = Finite 100"
    unfolding e2 by simp
  have f1: "addXP (Finite 50) (addXP (Finite 50) INITIAL_PROGRESS)
      = addXP (Finite 100) INITIAL_PROGRESS"
    unfolding e1 e4 ..
  have f3: "xp (addXP (Finite 50) (addXP (Finite 50) INITIAL_PROGRESS)) = Finite 100"
    unfolding e3 by simp
  from f1 f3 t2 t3 show ?thesis by blast
qed

lemma ulp_exp_54: "2 ^ 53 \<le> a \<Longrightarrow> a < 2 ^ 54 \<Longrightarrow> ulp_exp a = 1"
  using ulp_exp_unique [of 1 a] by simp

text \<open>
  The claim as stated fails beyond that range: from the XP \<open>2 ^ 53\<close>, adding 1 twice
  leaves the XP as it was (each sum rounds back), while adding 2 once gives
  \<open>2 ^ 53 + 2\<close>.
\<close>

theorem addXP_additive_counterexample:
  "xp (addXP (Finite 1) (addXP (Finite 1) (INITIAL_PROGRESS\<lparr> xp := Finite 9007199254740992 \<rparr>)))
     = Finite 9007199254740992
   \<and> xp (addXP (Number_add (Finite 1) (Finite 1))
        (INITIAL_PROGRESS\<lparr> xp := Finite 9007199254740992 \<rparr>))
     = Finite 9007199254740994
   \<and> is_double (Finite 9007199254740992)"
proof -
  have u: "ulp_exp 9007199254740992 = 1" "ulp_exp 9007199254740993 = 1"
    "ulp_exp 9007199254740994 = 1"
    by (simp_all add: ulp_exp_54)
  have r: "round_double 9007199254740992 = 9007199254740992"
    "round_double 9007199254740993 = 9007199254740992"
    "round_double 9007199254740994 = 9007199254740994"
    by (simp_all add: round_double_def round_nat_def u)
  have one: "Number_add (Finite 1) (Finite 1) = Finite 2"
    by (simp add: number_of_exact_def round_double_def round_nat_def)
  have a: "Number_add (Finite 9007199254740992) (Finite 1) = Finite 9007199254740992"
    by (simp add: number_of_exact_def r)
  have b: "Number_add (Finite 9007199254740992) (Finite 2) = Finite 9007199254740994"
    by (simp add: number_of_exact_def r)
  have c: "is_double (Finite 9007199254740992)"
    by (simp add: is_double_def r)
  show ?thesis
    by (simp add: addXP_def one a b c del: Number_add.simps)
qed

lemma markLearned_set:
  "set (learnedSigns (markLearned sign p)) = insert sign (set (learnedSigns p))"
  by (auto simp: markLearned_def)

lemma markLearned_distinct:
  "distinct (learnedSigns (markLearned sign p)) = distinct (learnedSigns p)"
  by (simp add: markLearned_def)

lemma fold_markLearned_distinct:
  "distinct (learnedSigns p) \<Longrightarrow> distinct (learnedSigns (fold markLearned signs p))"
  by (induction signs arbitrary: p) (simp_all add: markLearned_distinct)

text \<open>
  Claim C9. \<open>markLearned\<close> is idempotent: a second call with the same identifier changes
  nothing, so the learned signs are no more than after one call; a call with an
  identifier already present returns the record as it was; the learned signs after a call
  are the old ones and the identifier; a call adds no duplicate; and the learned signs
  reached from the default record by any calls hold no duplicate.
\<close>

theorem markLearned_idempotent:
  "markLearned sign (markLearned sign p) = markLearned sign p
   \<and> length (learnedSigns (markLearned sign (markLearned sign p)))
       \<le> length (learnedSigns (markLearned sign p))
   \<and> (sign \<in> set (learnedSigns p) \<longrightarrow> markLearned sign p = p)
   \<and> set (learnedSigns (markLearned sign p)) = insert sign (set (learnedSigns p))
   \<and> (distinct (learnedSigns p) \<longrightarrow> distinct (learnedSigns (markLearned sign p)))
   \<and> distinct (learnedSigns (fold markLearned signs INITIAL_PROGRESS))"
proof -
  have idem: "markLearned sign (markLearned sign p) = markLearned sign p"
    by (simp add: markLearned_def)
  have "distinct (learnedSigns (fold markLearned signs INITIAL_PROGRESS))"
    by (rule fold_markLearned_distinct) (simp add: INITIAL_PROGRESS_def)
  then show ?thesis
    using idem by (simp add: markLearned_set markLearned_distinct) (simp add: markLearned_def)
qed

theorem markLearned_idempotent_witness:
  "learnedSigns (markLearned (js ''A'') (markLearned (js ''A'') INITIAL_PROGRESS)) = [js ''A'']
   \<and> markLearned (js ''A'') (markLearned (js ''A'') INITIAL_PROGRESS)
       = markLearned (js ''A'') INITIAL_PROGRESS
   \<and> distinct (learnedSigns (fold markLearned [js ''A'', js ''B'', js ''A''] INITIAL_PROGRESS))"
  using markLearned_idempotent [of "js ''A''" INITIAL_PROGRESS "[js ''A'', js ''B'', js ''A'']"]
  by (simp add: markLearned_def INITIAL_PROGRESS_def)

lemma js_not_empty_iff [simp]: "(js t = []) = (t = [])"
  by (simp add: js_def)

lemma example_progress_text_not_empty: "example_progress_text \<noteq> []"
  by (simp add: example_progress_text_def)

lemma example_progress_text_not_brace: "js ''{'' \<noteq> example_progress_text"
  by (simp add: example_progress_text_def js_def dquote_def)

text \<open>
  Claim C2, as amended. The initial progress is the default record (zero XP, Beginner, a
  streak of one day, no learned sign) when the store holds nothing under the key, and
  also when it holds the empty text; it is the stored record when the stored text parses,
  in particular after the record was written back; and when the stored text does not
  parse, the \<^verbatim>\<open>SyntaxError\<close> of \<^verbatim>\<open>JSON.parse\<close> leaves the initialiser: the default
  record is not returned.
\<close>

theorem useProgress_initial_cases:
  "(store progress_key = None \<longrightarrow> useProgress_initial JSON_parse store = Inr INITIAL_PROGRESS)
   \<and> (store progress_key = Some [] \<longrightarrow> useProgress_initial JSON_parse store = Inr INITIAL_PROGRESS)
   \<and> (store progress_key = Some saved \<and> saved \<noteq> [] \<and> JSON_parse saved = Some p
        \<longrightarrow> useProgress_initial JSON_parse store = Inr p)
   \<and> (store progress_key = Some saved \<and> saved \<noteq> [] \<and> JSON_parse saved = None
        \<longrightarrow> useProgress_initial JSON_parse store = Inl SyntaxError)
   \<and> (JSON_stringify p \<noteq> [] \<and> JSON_parse (JSON_stringify p) = Some p
        \<longrightarrow> useProgress_initial JSON_parse (useProgress_persist JSON_stringify p store) = Inr p)
   \<and> INITIAL_PROGRESS
       = \<lparr> xp = Finite 0, level = Beginner, streakDays = Finite 1, learnedSigns = [] \<rparr>"
  by (simp add: useProgress_initial_def useProgress_persist_def INITIAL_PROGRESS_def)

theorem useProgress_initial_cases_witness:
  "useProgress_initial example_parse_progress Map.empty = Inr INITIAL_PROGRESS
   \<and> useProgress_initial example_parse_progress [progress_key \<mapsto> []] = Inr INITIAL_PROGRESS
   \<and> useProgress_initial example_parse_progress [progress_key \<mapsto> example_progress_text]
       = Inr example_progress
   \<and> useProgress_initial example_parse_progress [progress_key \<mapsto> js ''{''] = Inl SyntaxError
   \<and> useProgress_initial example_parse_progress
        (useProgress_persist example_stringify_progress example_progress Map.empty)
       = Inr example_progress"
proof -
  have a: "useProgress_initial example_parse_progress Map.empty = Inr INITIAL_PROGRESS"
    using useProgress_initial_cases [of Map.empty example_parse_progress] by simp
  have b: "useProgress_initial example_parse_progress [progress_key \<mapsto> []] = Inr INITIAL_PROGRESS"
    using useProgress_initial_cases [of "[progress_key \<mapsto> []]" example_parse_progress] by simp
  have c: "useProgress_initial example_parse_progress [progress_key \<mapsto> example_progress_text]
       = Inr example_progress"
    using useProgress_initial_cases [of "[progress_key \<mapsto> example_progress_text]"
        example_parse_progress example_progress_text example_progress]
    by (simp add: example_parse_progress_def example_progress_text_not_empty)
  have d: "useProgress_initial example_parse_progress [progress_key \<mapsto> js ''{''] = Inl SyntaxError"
    using useProgress_initial_cases [of "[progress_key \<mapsto> js ''{'']"
        example_parse_progress "js ''{''"]
    by (simp add: example_parse_progress_def example_progress_text_not_brace)
  have e: "useProgress_initial example_parse_progress
        (useProgress_persist example_stringify_progress example_progress Map.empty)
       = Inr example_progress"
    using useProgress_initial_cases [of Map.empty example_parse_progress _ example_progress
        example_stringify_progress]
    by (simp add: example_parse_progress_def example_stringify_progress_def
        example_progress_text_not_empty)
  from a b c d e show ?thesis by simp
qed

text \<open>
  The claim as stated fails: with the text \<^verbatim>\<open>{\<close> stored under the key, which does
  not parse, the initialiser raises and does not return the default record.
\<close>

theorem useProgress_initial_counterexample:
  "example_parse_progress (js ''{'') = None
   \<and> useProgress_initial example_parse_progress [progress_key \<mapsto> js ''{''] = Inl SyntaxError
   \<and> useProgress_initial example_parse_progress [progress_key \<mapsto> js ''{'']
       \<noteq> Inr INITIAL_PROGRESS"
  by (simp add: useProgress_initial_def example_parse_progress_def example_progress_text_not_brace)

section \<open>Properties of analyzeHandShape\<close>

lemma mockFallback_message: "message (mockFallback tgt spokenQuestion d) \<noteq> []"
  by (cases "errorPick d") (simp_all add: mockFallback_def errors_def dquote_def)

lemma mockFallback_spoken:
  "q \<noteq> [] \<Longrightarrow>
   mockFallback tgt (Some q) d =
     \<lparr> success = False,
       message = js ''I heard you ask: '' @ dquote @ q @ dquote
         @ js ''. Based on the image, your index finger looks good, but check your thumb placement.'',
       correctionPrompt = Some (js ''photorealistic hand signing ASL letter '' @ tgt) \<rparr>"
  by (simp add: mockFallback_def truthy_def or_else_def)

text \<open>
  Claim C1, as amended. When there is no API key, when the request fails, and when the
  response text (or \<^verbatim>\<open>{}\<close> in place of a missing or empty text) does not parse as
  JSON, the function returns the response built in its \<^verbatim>\<open>catch\<close> block, whose
  \<open>success\<close> is a boolean and whose \<open>message\<close> is not empty; no failure reaches the
  caller. When the text parses, the parsed value is returned as it is, whatever its
  shape.
\<close>

theorem analyzeHandShape_fallback:
  "analyzeHandShape JSON_parse NoApiKey tgt imageBase64 spokenQuestion d
     = Synthesized (mockFallback tgt spokenQuestion d)
   \<and> analyzeHandShape JSON_parse RequestFails tgt imageBase64 spokenQuestion d
     = Synthesized (mockFallback tgt spokenQuestion d)
   \<and> (JSON_parse (or_else response_text (js ''{}'')) = None
        \<longrightarrow> analyzeHandShape JSON_parse (Responds response_text) tgt imageBase64 spokenQuestion d
              = Synthesized (mockFallback tgt spokenQuestion d))
   \<and> (JSON_parse (or_else response_text (js ''{}'')) = Some v
        \<longrightarrow> analyzeHandShape JSON_parse (Responds response_text) tgt imageBase64 spokenQuestion d
              = Unchecked v)
   \<and> wellformed (Synthesized (mockFallback tgt spokenQuestion d))"
  by (simp add: analyzeHandShape_def wellformed_def mockFallback_message)

theorem analyzeHandShape_fallback_witness:
  "wellformed (analyzeHandShape example_parse NoApiKey (js ''A'') (js ''image'') None example_draws)
   \<and> wellformed (analyzeHandShape example_parse RequestFails (js ''A'') (js ''image'') None example_draws)
   \<and> analyzeHandShape example_parse (Responds (Some (js ''oops''))) (js ''A'') (js ''image'') None
         example_draws
       = Synthesized (mockFallback (js ''A'') None example_draws)
   \<and> analyzeHandShape example_parse (Responds (Some (js ''{}''))) (js ''A'') (js ''image'') None
         example_draws
       = Unchecked (JObject [])"
proof -
  have a: "example_parse (or_else (Some (js ''oops'')) (js ''{}'')) = None"
    by (simp add: example_parse_def or_else_def js_def)
  have b: "example_parse (or_else (Some (js ''{}'')) (js ''{}'')) = Some (JObject [])"
    by (simp add: example_parse_def or_else_def)
  show ?thesis
    using a b
      analyzeHandShape_fallback [of example_parse "js ''A''" "js ''image''" None example_draws
        "Some (js ''oops'')"]
      analyzeHandShape_fallback [of example_parse "js ''A''" "js ''image''" None example_draws
        "Some (js ''{}'')" "JObject []"]
    by simp
qed

text \<open>
  The claim as stated fails: a response without text is read as \<^verbatim>\<open>{}\<close>, which
  parses; the empty object is returned, with no \<open>success\<close> and no \<open>message\<close>, and no
  response is synthesized.
\<close>

theorem analyzeHandShape_unchecked_counterexample:
  "analyzeHandShape example_parse (Responds None) (js ''A'') (js ''image'') None example_draws
     = Unchecked (JObject [])
   \<and> \<not> wellformed
         (analyzeHandShape example_parse (Responds None) (js ''A'') (js ''image'') None example_draws)
   \<and> analyzeHandShape example_parse (Responds None) (js ''A'') (js ''image'') None example_draws
       \<noteq> Synthesized (mockFallback (js ''A'') None example_draws)"
  by (simp add: analyzeHandShape_def example_parse_def or_else_def wellformed_def
      wellformed_json_def property_def)

section \<open>Properties of the state machine\<close>

lemma ALPHABET_first_target: "target (ALPHABET_LESSONS ! 0) = js ''A''"
  by (simp add: ALPHABET_LESSONS_def)

lemma performAnalysis_call_settle:
  "performAnalysis svc imageSrc spokenText s =
     (if appState s = ANALYZING \<or> appState s = GENERATING_REF then s
      else performAnalysis_settle
             (svc_analyzeHandShape svc (target (currentLesson s)) imageSrc spokenText)
             (target (currentLesson s)) (performAnalysis_call imageSrc spokenText s))"
  by (simp add: performAnalysis_def performAnalysis_call_def)

text \<open>
  Claim C3, as amended. In the states \<open>ANALYZING\<close> and \<open>GENERATING_REF\<close> a frame
  submission changes nothing: \<open>performAnalysis\<close> (whole, and up to its \<^verbatim>\<open>await\<close>), the
  manual capture and a tick of the auto-check return the state as it was, so the mode, the
  feedback, the progress record and the calls started are the same, no analysis is
  started and the number of analyses in flight is the same; a voice command that reaches
  the analysis only records the transcript as the last spoken command. The guard is on
  the state only: it does not keep a second submission from starting while one is in
  flight.
\<close>

theorem submission_guard:
  assumes "appState s = ANALYZING \<or> appState s = GENERATING_REF"
  shows "performAnalysis svc imageSrc spokenText s = s
    \<and> handleCapture svc screenshot s = s
    \<and> autoCheck_tick svc screenshot s = s
    \<and> askQuestion svc screenshot transcript s = s
    \<and> performAnalysis_call imageSrc spokenText s = s
    \<and> run [Submits imageSrc spokenText] s n = (s, n)
    \<and> (\<not> says_next (toLowerCase transcript) \<and> \<not> says_previous (toLowerCase transcript)
        \<and> \<not> says_repeat (toLowerCase transcript) \<and> \<not> says_teach (toLowerCase transcript)
        \<longrightarrow> processVoiceCommand svc toLowerCase screenshot transcript s
              = Some (s\<lparr> lastSpokenCommand := Some transcript \<rparr>))"
proof -
  have pa: "performAnalysis svc i t s' = s'"
    if "appState s' = ANALYZING \<or> appState s' = GENERATING_REF" for i t s'
    using that by (auto simp: performAnalysis_def)
  have hc: "handleCapture svc screenshot s = s"
    using assms by (auto simp: handleCapture_def)
  have ac: "autoCheck_tick svc screenshot s = s"
    using assms by (auto simp: autoCheck_tick_def)
  have aq: "askQuestion svc screenshot t s' = s'"
    if "appState s' = ANALYZING \<or> appState s' = GENERATING_REF" for t s'
    using that by (simp add: askQuestion_def pa split: option.split)
  have "appState (s\<lparr> lastSpokenCommand := Some transcript \<rparr>) = ANALYZING
      \<or> appState (s\<lparr> lastSpokenCommand := Some transcript \<rparr>) = GENERATING_REF"
    using assms by simp
  then have "askQuestion svc screenshot transcript (s\<lparr> lastSpokenCommand := Some transcript \<rparr>)
      = s\<lparr> lastSpokenCommand := Some transcript \<rparr>"
    by (rule aq)
  moreover have "performAnalysis_call imageSrc spokenText s = s"
    using assms by (auto simp: performAnalysis_call_def)
  moreover have "run [Submits imageSrc spokenText] s n = (s, n)"
    using assms by (auto simp: performAnalysis_call_def)
  ultimately show ?thesis
    using assms pa [of s] hc ac aq [of s] by (simp add: processVoiceCommand_def Let_def)
qed

theorem submission_guard_witness:
  "performAnalysis example_service (js ''image'') None (initial_App\<lparr> appState := ANALYZING \<rparr>)
     = initial_App\<lparr> appState := ANALYZING \<rparr>
   \<and> handleCapture example_service (Some (js ''image'')) (initial_App\<lparr> appState := ANALYZING \<rparr>)
     = initial_App\<lparr> appState := ANALYZING \<rparr>
   \<and> autoCheck_tick example_service (Some (js ''image''))
        (initial_App\<lparr> appState := ANALYZING, isAutoMode := True \<rparr>)
     = initial_App\<lparr> appState := ANALYZING, isAutoMode := True \<rparr>
   \<and> processVoiceCommand example_service example_toLowerCase (Some (js ''image''))
        (js ''Is this right'') (initial_App\<lparr> appState := GENERATING_REF \<rparr>)
     = Some (initial_App\<lparr> appState := GENERATING_REF,
               lastSpokenCommand := Some (js ''Is this right'') \<rparr>)"
proof -
  have k: "\<not> says_next (example_toLowerCase (js ''Is this right''))
      \<and> \<not> says_previous (example_toLowerCase (js ''Is this right''))
      \<and> \<not> says_repeat (example_toLowerCase (js ''Is this right''))
      \<and> \<not> says_teach (example_toLowerCase (js ''Is this right''))"
    by (simp add: says_next_def says_previous_def says_repeat_def says_teach_def js_def
        example_toLowerCase_def)
  have a: "appState (initial_App\<lparr> appState := ANALYZING \<rparr>) = ANALYZING
      \<or> appState (initial_App\<lparr> appState := ANALYZING \<rparr>) = GENERATING_REF"
    by simp
  have b: "appState (initial_App\<lparr> appState := ANALYZING, isAutoMode := True \<rparr>) = ANALYZING
      \<or> appState (initial_App\<lparr> appState := ANALYZING, isAutoMode := True \<rparr>) = GENERATING_REF"
    by simp
  have c: "appState (initial_App\<lparr> appState := GENERATING_REF \<rparr>) = ANALYZING
      \<or> appState (initial_App\<lparr> appState := GENERATING_REF \<rparr>) = GENERATING_REF"
    by simp
  show ?thesis
    using k
      submission_guard [OF a, of example_service "js ''image''" None "Some (js ''image'')"]
      submission_guard [OF b, of example_service _ _ "Some (js ''image'')"]
      submission_guard [OF c, of example_service _ _ "Some (js ''image'')" "js ''Is this right''"
        _ example_toLowerCase]
    by simp
qed

text \<open>
  The claim as stated fails: a second submission starts while one is in flight. After a
  submission from \<open>WAITING_FOR_USER\<close> the state is \<open>ANALYZING\<close> with one analysis in
  flight; \<open>loadLesson\<close> (navigation, the repeat command, the refresh of the image) tests no
  state, and when its image settles the state is \<open>WAITING_FOR_USER\<close> again although the
  analysis has not settled; the next submission passes the guard, and two analyses are in
  flight.
\<close>

theorem second_submission_counterexample:
  "appState (fst (run [Submits (js ''image'') None]
        (initial_App\<lparr> appState := WAITING_FOR_USER \<rparr>) 0)) = ANALYZING
   \<and> snd (run [Submits (js ''image'') None]
        (initial_App\<lparr> appState := WAITING_FOR_USER \<rparr>) 0) = 1
   \<and> appState (fst (run [Submits (js ''image'') None, Loads (ALPHABET_LESSONS ! 0),
          ImageSettles (Resolved (js ''https://placehold.co/800x800''))]
        (initial_App\<lparr> appState := WAITING_FOR_USER \<rparr>) 0)) = WAITING_FOR_USER
   \<and> snd (run [Submits (js ''image'') None, Loads (ALPHABET_LESSONS ! 0),
          ImageSettles (Resolved (js ''https://placehold.co/800x800'')),
          Submits (js ''image'') None]
        (initial_App\<lparr> appState := WAITING_FOR_USER \<rparr>) 0) = 2
   \<and> started (fst (run [Submits (js ''image'') None, Loads (ALPHABET_LESSONS ! 0),
          ImageSettles (Resolved (js ''https://placehold.co/800x800'')),
          Submits (js ''image'') None]
        (initial_App\<lparr> appState := WAITING_FOR_USER \<rparr>) 0))
      = [AnalyzeCall (js ''A'') (js ''image'') None,
         ImageCall (prompt (ALPHABET_LESSONS ! 0)) (js ''1:1''),
         AnalyzeCall (js ''A'') (js ''image'') None]
   \<and> loadLesson example_service (ALPHABET_LESSONS ! 0)
        (performAnalysis_call (js ''image'') None (initial_App\<lparr> appState := WAITING_FOR_USER \<rparr>))
      = fst (run [Submits (js ''image'') None, Loads (ALPHABET_LESSONS ! 0),
          ImageSettles (Resolved (js ''https://placehold.co/800x800''))]
        (initial_App\<lparr> appState := WAITING_FOR_USER \<rparr>) 0)"
  by (simp add: performAnalysis_call_def performAnalysis_begin_def loadLesson_begin_def
      loadLesson_settle_def loadLesson_def initial_App_def ALPHABET_first_target
      example_service_def)

text \<open>
  Claim C4. A submission that passes the guard enters \<open>ANALYZING\<close> with the feedback
  cleared and starts one analysis of the current target. When the analysis resolves with
  \<open>success\<close> true, the state is \<open>SUCCESS\<close>, the feedback is the result, 50 XP are added
  and the current target is among the learned signs; when it resolves with \<open>success\<close>
  false, the state is \<open>FEEDBACK\<close>, the feedback is the result and the progress record is
  untouched; when it rejects, the state is \<open>WAITING_FOR_USER\<close> with no feedback and the
  progress record untouched.
\<close>

theorem performAnalysis_outcomes:
  assumes "appState s \<noteq> ANALYZING" and "appState s \<noteq> GENERATING_REF"
  shows "performAnalysis svc imageSrc spokenText s
      = performAnalysis_settle
          (svc_analyzeHandShape svc (target (currentLesson s)) imageSrc spokenText)
          (target (currentLesson s)) (performAnalysis_begin imageSrc spokenText s)
    \<and> appState (performAnalysis_begin imageSrc spokenText s) = ANALYZING
    \<and> feedback (performAnalysis_begin imageSrc spokenText s) = None
    \<and> progress (performAnalysis_begin imageSrc spokenText s) = progress s
    \<and> started (performAnalysis_begin imageSrc spokenText s)
        = started s @ [AnalyzeCall (target (currentLesson s)) imageSrc spokenText]
    \<and> (svc_analyzeHandShape svc (target (currentLesson s)) imageSrc spokenText = Resolved result
          \<and> success result
        \<longrightarrow> appState (performAnalysis svc imageSrc spokenText s) = SUCCESS
            \<and> feedback (performAnalysis svc imageSrc spokenText s) = Some result
            \<and> progress (performAnalysis svc imageSrc spokenText s)
                = markLearned (target (currentLesson s)) (addXP (Finite 50) (progress s))
            \<and> xp (progress (performAnalysis svc imageSrc spokenText s))
                = Number_add (xp (progress s)) (Finite 50)
            \<and> (xp (progress s) = Finite x \<and> 0 \<le> x \<and> x + 50 \<le> 2 ^ 53
                \<longrightarrow> xp (progress (performAnalysis svc imageSrc spokenText s)) = Finite (x + 50))
            \<and> target (currentLesson s)
                \<in> set (learnedSigns (progress (performAnalysis svc imageSrc spokenText s))))
    \<and> (svc_analyzeHandShape svc (target (currentLesson s)) imageSrc spokenText = Resolved result
          \<and> \<not> success result
        \<longrightarrow> appState (performAnalysis svc imageSrc spokenText s) = FEEDBACK
            \<and> feedback (performAnalysis svc imageSrc spokenText s) = Some result
            \<and> progress (performAnalysis svc imageSrc spokenText s) = progress s)
    \<and> (svc_analyzeHandShape svc (target (currentLesson s)) imageSrc spokenText = Rejected
        \<longrightarrow> appState (performAnalysis svc imageSrc spokenText s) = WAITING_FOR_USER
            \<and> feedback (performAnalysis svc imageSrc spokenText s) = None
            \<and> progress (performAnalysis svc imageSrc spokenText s) = progress s)"
proof -
  have "Number_add (Finite x) (Finite 50) = Finite (x + 50)"
    if "0 \<le> x \<and> x + 50 \<le> 2 ^ 53"
    using that by (simp add: Number_add_small del: Number_add.simps)
  then show ?thesis
    using assms
    by (simp add: performAnalysis_def performAnalysis_settle_def performAnalysis_begin_def
        markLearned_def addXP_def del: Number_add.simps)
qed

theorem performAnalysis_outcomes_witness:
  "appState (performAnalysis example_service (js ''image'') None
      (initial_App\<lparr> appState := WAITING_FOR_USER \<rparr>)) = SUCCESS
   \<and> xp (progress (performAnalysis example_service (js ''image'') None
      (initial_App\<lparr> appState := WAITING_FOR_USER \<rparr>))) = Finite 50
   \<and> learnedSigns (progress (performAnalysis example_service (js ''image'') None
      (initial_App\<lparr> appState := WAITING_FOR_USER \<rparr>))) = [js ''A'']
   \<and> appState (performAnalysis example_service (js ''image'') (Some (js ''is this right''))
      (initial_App\<lparr> appState := WAITING_FOR_USER \<rparr>)) = FEEDBACK
   \<and> progress (performAnalysis example_service (js ''image'') (Some (js ''is this right''))
      (initial_App\<lparr> appState := WAITING_FOR_USER \<rparr>)) = INITIAL_PROGRESS
   \<and> appState (performAnalysis
        (example_service\<lparr> svc_analyzeHandShape := (\<lambda>tgt imageSrc spoken. Rejected) \<rparr>)
        (js ''image'') None (initial_App\<lparr> appState := FEEDBACK \<rparr>)) = WAITING_FOR_USER
   \<and> feedback (performAnalysis
        (example_service\<lparr> svc_analyzeHandShape := (\<lambda>tgt imageSrc spoken. Rejected) \<rparr>)
        (js ''image'') None (initial_App\<lparr> appState := FEEDBACK \<rparr>)) = None"
proof -
  let ?w = "initial_App\<lparr> appState := WAITING_FOR_USER \<rparr>"
  let ?f = "initial_App\<lparr> appState := FEEDBACK \<rparr>"
  let ?rejecting = "example_service\<lparr> svc_analyzeHandShape := (\<lambda>tgt imageSrc spoken. Rejected) \<rparr>"
  let ?yes = "mockFallback (js ''A'') None example_draws"
  let ?no = "mockFallback (js ''A'') (Some (js ''is this right'')) example_draws"
  have w: "appState ?w \<noteq> ANALYZING" "appState ?w \<noteq> GENERATING_REF"
    by simp_all
  have f: "appState ?f \<noteq> ANALYZING" "appState ?f \<noteq> GENERATING_REF"
    by simp_all
  have tgt: "target (currentLesson ?w) = js ''A''" "progress ?w = INITIAL_PROGRESS"
    by (simp_all add: initial_App_def ALPHABET_first_target)
  have yes: "success ?yes"
    by (simp add: mockFallback_def truthy_def example_draws_def)
  have no: "\<not> success ?no"
    by (simp add: mockFallback_spoken)
  have call_yes: "svc_analyzeHandShape example_service (target (currentLesson ?w)) (js ''image'') None
      = Resolved ?yes"
    by (simp add: example_service_def initial_App_def ALPHABET_first_target)
  have call_no: "svc_analyzeHandShape example_service (target (currentLesson ?w)) (js ''image'')
      (Some (js ''is this right'')) = Resolved ?no"
    by (simp add: example_service_def initial_App_def ALPHABET_first_target)
  have call_rej: "svc_analyzeHandShape ?rejecting (target (currentLesson ?f)) (js ''image'') None
      = Rejected"
    by simp
  have a: "appState (performAnalysis example_service (js ''image'') None ?w) = SUCCESS
      \<and> progress (performAnalysis example_service (js ''image'') None ?w)
          = markLearned (js ''A'') (addXP (Finite 50) INITIAL_PROGRESS)"
    using performAnalysis_outcomes [OF w, of example_service "js ''image''" None ?yes]
      call_yes yes tgt by metis
  have b: "appState (performAnalysis example_service (js ''image'') (Some (js ''is this right'')) ?w)
        = FEEDBACK
      \<and> progress (performAnalysis example_service (js ''image'') (Some (js ''is this right'')) ?w)
          = INITIAL_PROGRESS"
    using performAnalysis_outcomes [OF w, of example_service "js ''image''"
        "Some (js ''is this right'')" ?no]
      call_no no tgt by metis
  have c: "appState (performAnalysis ?rejecting (js ''image'') None ?f) = WAITING_FOR_USER
      \<and> feedback (performAnalysis ?rejecting (js ''image'') None ?f) = None"
    using performAnalysis_outcomes [OF f, of ?rejecting "js ''image''" None] call_rej by metis
  have "Number_add (Finite 0) (Finite 50) = Finite (0 + 50)"
    by (rule Number_add_small) simp_all
  then have d: "xp (markLearned (js ''A'') (addXP (Finite 50) INITIAL_PROGRESS)) = Finite 50"
    "learnedSigns (markLearned (js ''A'') (addXP (Finite 50) INITIAL_PROGRESS)) = [js ''A'']"
    by (simp_all add: markLearned_def addXP_def INITIAL_PROGRESS_def del: Number_add.simps)
  from a b c d show ?thesis by simp
qed

text \<open>
  Claim C10. When the primary path fails and a spoken question (a non-empty string) was
  given, the function returns the fallback response with \<open>success\<close> false and the
  correction prompt for the target, whatever the random draws; a submission with a spoken
  question that resolves with this response never ends in \<open>SUCCESS\<close> and leaves the
  progress record, hence the XP, as it was.
\<close>

theorem spoken_question_never_succeeds:
  assumes "ai = NoApiKey \<or> ai = RequestFails
      \<or> (\<exists>response_text. ai = Responds response_text
            \<and> JSON_parse (or_else response_text (js ''{}'')) = None)"
    and "q \<noteq> []"
  shows "analyzeHandShape JSON_parse ai tgt imageBase64 (Some q) d
      = Synthesized (mockFallback tgt (Some q) d)
    \<and> \<not> success (mockFallback tgt (Some q) d)
    \<and> correctionPrompt (mockFallback tgt (Some q) d)
        = Some (js ''photorealistic hand signing ASL letter '' @ tgt)
    \<and> (svc_analyzeHandShape svc (target (currentLesson s)) imageSrc (Some q)
          = Resolved (mockFallback (target (currentLesson s)) (Some q) d)
        \<longrightarrow> appState (performAnalysis svc imageSrc (Some q) s) \<noteq> SUCCESS
            \<and> progress (performAnalysis svc imageSrc (Some q) s) = progress s
            \<and> (appState s \<noteq> ANALYZING \<and> appState s \<noteq> GENERATING_REF
                 \<longrightarrow> appState (performAnalysis svc imageSrc (Some q) s) = FEEDBACK))"
proof -
  have a: "analyzeHandShape JSON_parse ai tgt imageBase64 (Some q) d
      = Synthesized (mockFallback tgt (Some q) d)"
    using assms(1) by (auto simp: analyzeHandShape_def)
  have b: "\<not> success (mockFallback t (Some q) d)" for t
    using assms(2) by (simp add: mockFallback_spoken)
  have c: "correctionPrompt (mockFallback tgt (Some q) d)
        = Some (js ''photorealistic hand signing ASL letter '' @ tgt)"
    using assms(2) by (simp add: mockFallback_spoken)
  have d: "appState (performAnalysis svc imageSrc (Some q) s) \<noteq> SUCCESS
      \<and> progress (performAnalysis svc imageSrc (Some q) s) = progress s
      \<and> (appState s \<noteq> ANALYZING \<and> appState s \<noteq> GENERATING_REF
           \<longrightarrow> appState (performAnalysis svc imageSrc (Some q) s) = FEEDBACK)"
    if "svc_analyzeHandShape svc (target (currentLesson s)) imageSrc (Some q)
          = Resolved (mockFallback (target (currentLesson s)) (Some q) d)"
    using that b [of "target (currentLesson s)"]
    by (simp add: performAnalysis_def performAnalysis_settle_def performAnalysis_begin_def)
  from a b c d show ?thesis by blast
qed

theorem spoken_question_never_succeeds_witness:
  "analyzeHandShape example_parse NoApiKey (js ''A'') (js ''image'') (Some (js ''is this right''))
      example_draws
     = Synthesized (mockFallback (js ''A'') (Some (js ''is this right'')) example_draws)
   \<and> isSuccess example_draws
   \<and> \<not> success (mockFallback (js ''A'') (Some (js ''is this right'')) example_draws)
   \<and> appState (performAnalysis example_service (js ''image'') (Some (js ''is this right''))
        (initial_App\<lparr> appState := WAITING_FOR_USER \<rparr>)) = FEEDBACK
   \<and> xp (progress (performAnalysis example_service (js ''image'') (Some (js ''is this right''))
        (initial_App\<lparr> appState := WAITING_FOR_USER \<rparr>))) = Finite 0"
  using spoken_question_never_succeeds [of NoApiKey example_parse "js ''is this right''"
      "js ''A''" "js ''image''" example_draws example_service
      "initial_App\<lparr> appState := WAITING_FOR_USER \<rparr>" "js ''image''"]
  by (simp add: example_service_def initial_App_def ALPHABET_first_target example_draws_def
      INITIAL_PROGRESS_def)

subsection \<open>Navigation\<close>

lemma findIndex_lower: "- 1 \<le> findIndex P xs"
  by (induction xs) (simp_all add: Let_def)

lemma findIndex_first:
  "i < length xs \<Longrightarrow> P (xs ! i) \<Longrightarrow> (\<forall>j<i. \<not> P (xs ! j)) \<Longrightarrow> findIndex P xs = int i"
proof (induction xs arbitrary: i)
  case Nil
  then show ?case by simp
next
  case (Cons x xs)
  show ?case
  proof (cases i)
    case 0
    with Cons.prems show ?thesis by simp
  next
    case (Suc k)
    with Cons.prems have "\<not> P x" by auto
    moreover have "findIndex P xs = int k"
    proof (rule Cons.IH)
      show "k < length xs" using Cons.prems Suc by simp
      show "P (xs ! k)" using Cons.prems Suc by simp
      show "\<forall>j<k. \<not> P (xs ! j)"
      proof (intro allI impI)
        fix j assume "j < k"
        then have "Suc j < i" using Suc by simp
        with Cons.prems have "\<not> P ((x # xs) ! Suc j)" by blast
        then show "\<not> P (xs ! j)" by simp
      qed
    qed
    ultimately show ?thesis using Suc by (simp add: Let_def)
  qed
qed

lemma findIndex_found:
  "findIndex P xs = int i \<Longrightarrow> i < length xs \<and> P (xs ! i) \<and> (\<forall>j<i. \<not> P (xs ! j))"
proof (induction xs arbitrary: i)
  case Nil
  then show ?case by simp
next
  case (Cons x xs)
  show ?case
  proof (cases "P x")
    case True
    with Cons.prems show ?thesis by simp
  next
    case False
    with Cons.prems have nn: "\<not> findIndex P xs < 0" and eq: "findIndex P xs + 1 = int i"
      by (auto simp: Let_def split: if_splits)
    then obtain k where k: "i = Suc k" "findIndex P xs = int k"
      by (cases i) auto
    from Cons.IH [OF k(2)] False k(1) show ?thesis
      by (auto simp: less_Suc_eq_0_disj)
  qed
qed

lemma findIndex_distinct:
  assumes "distinct (map f xs)" and "i < length xs"
  shows "findIndex (\<lambda>x. f x = f (xs ! i)) xs = int i"
proof (rule findIndex_first)
  show "i < length xs" by fact
  show "f (xs ! i) = f (xs ! i)" by simp
  show "\<forall>j<i. f (xs ! j) \<noteq> f (xs ! i)"
  proof (intro allI impI)
    fix j assume "j < i"
    then have "j < length (map f xs)" "i < length (map f xs)" "j \<noteq> i"
      using assms(2) by simp_all
    with assms(1) have "map f xs ! j \<noteq> map f xs ! i"
      unfolding distinct_conv_nth by blast
    then show "f (xs ! j) \<noteq> f (xs ! i)"
      using \<open>j < i\<close> assms(2) by simp
  qed
qed

lemma loadLesson_fields:
  "currentLesson (loadLesson svc lesson s) = lesson
   \<and> feedback (loadLesson svc lesson s) = None
   \<and> lessonQueue (loadLesson svc lesson s) = lessonQueue s
   \<and> progress (loadLesson svc lesson s) = progress s
   \<and> started (loadLesson svc lesson s) = started s @ [ImageCall (prompt lesson) (js ''1:1'')]
   \<and> appState (loadLesson_begin lesson s) = GENERATING_REF
   \<and> appState (loadLesson svc lesson s)
       = (case svc_generateReferenceImage svc (prompt lesson) (js ''1:1'') of
            Resolved url \<Rightarrow> WAITING_FOR_USER | Rejected \<Rightarrow> IDLE)"
  by (simp add: loadLesson_def loadLesson_settle_def loadLesson_begin_def split: promise.split)

lemma ALPHABET_ids:
  "length ALPHABET_LESSONS = 3"
  "id_lesson (ALPHABET_LESSONS ! 0) = js ''A''"
  "id_lesson (ALPHABET_LESSONS ! 1) = js ''B''"
  "id_lesson (ALPHABET_LESSONS ! 2) = js ''C''"
  "id_lesson (ALPHABET_LESSONS ! Suc 0) = js ''B''"
  by (simp_all add: ALPHABET_LESSONS_def)

lemma js_letters_differ:
  "js ''A'' \<noteq> js ''B''" "js ''A'' \<noteq> js ''C''" "js ''B'' \<noteq> js ''C''"
  "js ''B'' \<noteq> js ''A''" "js ''C'' \<noteq> js ''A''" "js ''C'' \<noteq> js ''B''"
  by (simp_all add: js_def)

text \<open>
  Claim C5. Let the current lesson's identifier be found first at index \<open>i\<close> of the
  queue (its position; with unique identifiers, the index of the current lesson). Then
  \<open>handleNext\<close> loads the lesson at index \<open>(i + 1) mod length\<close>, which from the last
  index is the first lesson; \<open>handlePrevious\<close> loads the lesson at \<open>i - 1\<close> when \<open>i\<close> is
  positive and changes nothing at index 0; and loading makes the lesson the current one,
  enters \<open>GENERATING_REF\<close> and requests its reference image.
\<close>

theorem navigation:
  assumes "i < length (lessonQueue s)"
    and "id_lesson (lessonQueue s ! i) = id_lesson (currentLesson s)"
    and "\<forall>j<i. id_lesson (lessonQueue s ! j) \<noteq> id_lesson (currentLesson s)"
  shows "handleNext svc s
      = Some (loadLesson svc (lessonQueue s ! ((i + 1) mod length (lessonQueue s))) s)
    \<and> (i = length (lessonQueue s) - 1
        \<longrightarrow> handleNext svc s = Some (loadLesson svc (lessonQueue s ! 0) s))
    \<and> (0 < i \<longrightarrow> handlePrevious svc s = loadLesson svc (lessonQueue s ! (i - 1)) s)
    \<and> (i = 0 \<longrightarrow> handlePrevious svc s = s)
    \<and> currentLesson (loadLesson svc lesson s) = lesson
    \<and> appState (loadLesson_begin lesson s) = GENERATING_REF
    \<and> started (loadLesson svc lesson s) = started s @ [ImageCall (prompt lesson) (js ''1:1'')]"
proof -
  have idx: "findIndex (\<lambda>l. id_lesson l = id_lesson (currentLesson s)) (lessonQueue s) = int i"
    using assms by (intro findIndex_first) simp_all
  have ne: "lessonQueue s \<noteq> []"
    using assms(1) by auto
  have m: "nat ((int i + 1) mod int (length (lessonQueue s))) = (i + 1) mod length (lessonQueue s)"
  proof -
    have "(int i + 1) mod int (length (lessonQueue s)) = int ((i + 1) mod length (lessonQueue s))"
      by (simp add: zmod_int add.commute)
    then show ?thesis by simp
  qed
  have nxt: "handleNext svc s
      = Some (loadLesson svc (lessonQueue s ! ((i + 1) mod length (lessonQueue s))) s)"
    using ne by (simp add: handleNext_def idx m Let_def)
  have wrap: "(i + 1) mod length (lessonQueue s) = 0" if "i = length (lessonQueue s) - 1"
  proof -
    have "i + 1 = length (lessonQueue s)"
      using that assms(1) by arith
    then show ?thesis by simp
  qed
  have prv: "handlePrevious svc s = loadLesson svc (lessonQueue s ! (i - 1)) s" if "0 < i"
  proof -
    have "nat (int i - 1) = i - 1" by simp
    then show ?thesis
      using that by (simp add: handlePrevious_def idx Let_def)
  qed
  have stay: "handlePrevious svc s = s" if "i = 0"
    using that by (simp add: handlePrevious_def idx Let_def)
  show ?thesis
    using nxt wrap prv stay loadLesson_fields [of svc lesson s] by simp
qed

theorem navigation_witness:
  "handleNext example_service (initial_App\<lparr> currentLesson := ALPHABET_LESSONS ! 2 \<rparr>)
     = Some (loadLesson example_service (ALPHABET_LESSONS ! 0)
              (initial_App\<lparr> currentLesson := ALPHABET_LESSONS ! 2 \<rparr>))
   \<and> handlePrevious example_service (initial_App\<lparr> currentLesson := ALPHABET_LESSONS ! 2 \<rparr>)
     = loadLesson example_service (ALPHABET_LESSONS ! 1)
         (initial_App\<lparr> currentLesson := ALPHABET_LESSONS ! 2 \<rparr>)
   \<and> handleNext example_service initial_App
     = Some (loadLesson example_service (ALPHABET_LESSONS ! 1) initial_App)
   \<and> handlePrevious example_service initial_App = initial_App"
proof -
  let ?last = "initial_App\<lparr> currentLesson := ALPHABET_LESSONS ! 2 \<rparr>"
  have q: "lessonQueue ?last = ALPHABET_LESSONS" "lessonQueue initial_App = ALPHABET_LESSONS"
    "currentLesson ?last = ALPHABET_LESSONS ! 2" "currentLesson initial_App = ALPHABET_LESSONS ! 0"
    by (simp_all add: initial_App_def)
  have l1: "2 < length (lessonQueue ?last)"
    by (simp add: q ALPHABET_ids)
  have l2: "id_lesson (lessonQueue ?last ! 2) = id_lesson (currentLesson ?last)"
    by (simp add: q)
  have l3: "\<forall>j<2. id_lesson (lessonQueue ?last ! j) \<noteq> id_lesson (currentLesson ?last)"
  proof (intro allI impI)
    fix j :: nat
    assume "j < 2"
    then have "j = 0 \<or> j = 1" by arith
    then show "id_lesson (lessonQueue ?last ! j) \<noteq> id_lesson (currentLesson ?last)"
      by (auto simp: q ALPHABET_ids js_letters_differ)
  qed
  have f1: "0 < length (lessonQueue initial_App)"
    by (simp add: q ALPHABET_ids)
  have f2: "id_lesson (lessonQueue initial_App ! 0) = id_lesson (currentLesson initial_App)"
    by (simp add: q)
  have f3: "\<forall>j<0. id_lesson (lessonQueue initial_App ! j) \<noteq> id_lesson (currentLesson initial_App)"
    by simp
  show ?thesis
    using navigation [OF l1 l2 l3, of example_service] navigation [OF f1 f2 f3, of example_service]
    by (simp add: q ALPHABET_ids)
qed

subsection \<open>Voice commands\<close>

lemma includes_str_iff: "includes_str t k = (\<exists>p q. t = p @ k @ q)"
proof (induction t)
  case Nil
  then show ?case by simp
next
  case (Cons c cs)
  have pre: "(take (length k) (c # cs) = k) = (\<exists>q. c # cs = k @ q)"
  proof
    assume "take (length k) (c # cs) = k"
    then have "c # cs = k @ drop (length k) (c # cs)"
      by (metis append_take_drop_id)
    then show "\<exists>q. c # cs = k @ q" ..
  next
    assume "\<exists>q. c # cs = k @ q"
    then show "take (length k) (c # cs) = k" by auto
  qed
  show ?case
  proof
    assume "includes_str (c # cs) k"
    then consider "\<exists>q. c # cs = k @ q" | "\<exists>p q. cs = p @ k @ q"
      using pre Cons.IH by auto
    then show "\<exists>p q. c # cs = p @ k @ q"
    proof cases
      case 1
      then obtain q where "c # cs = [] @ k @ q" by auto
      then show ?thesis by blast
    next
      case 2
      then obtain p q where "c # cs = (c # p) @ k @ q" by auto
      then show ?thesis by blast
    qed
  next
    assume "\<exists>p q. c # cs = p @ k @ q"
    then obtain p q where pq: "c # cs = p @ k @ q" by blast
    show "includes_str (c # cs) k"
    proof (cases p)
      case Nil
      with pq have "\<exists>q. c # cs = k @ q" by auto
      then show ?thesis using pre by simp
    next
      case (Cons a p')
      with pq have "cs = p' @ k @ q" by simp
      then have "includes_str cs k" using Cons.IH by blast
      then show ?thesis by simp
    qed
  qed
qed

text \<open>
  Claim C7. The transcript is lowered and matched by substring against the keywords in a
  fixed order, and the first rule that matches decides: a next keyword advances; else a
  previous keyword goes back; else a repeat keyword reloads the current lesson; else a
  teach keyword creates a lesson; else the transcript goes as a spoken question with the
  captured frame into the analysis. A transcript that contains both \<^verbatim>\<open>skip\<close> and
  \<^verbatim>\<open>go back\<close> advances. Each condition holds exactly when one of its keywords occurs in
  the lowered transcript.
\<close>

theorem voice_priority:
  fixes svc :: aiService and toLowerCase :: "js_string \<Rightarrow> js_string"
    and screenshot :: "js_string option" and transcript :: js_string and s :: App
  defines "lower \<equiv> toLowerCase transcript"
    and "s0 \<equiv> s\<lparr> lastSpokenCommand := Some transcript \<rparr>"
    and "out \<equiv> processVoiceCommand svc toLowerCase screenshot transcript s"
  shows "(says_next lower \<longrightarrow> out = handleNext svc s0)
    \<and> (\<not> says_next lower \<and> says_previous lower \<longrightarrow> out = Some (handlePrevious svc s0))
    \<and> (\<not> says_next lower \<and> \<not> says_previous lower \<and> says_repeat lower
        \<longrightarrow> out = Some (loadLesson svc (currentLesson s) s0))
    \<and> (\<not> says_next lower \<and> \<not> says_previous lower \<and> \<not> says_repeat lower \<and> says_teach lower
        \<longrightarrow> out = Some (teachLesson svc transcript s0))
    \<and> (\<not> says_next lower \<and> \<not> says_previous lower \<and> \<not> says_repeat lower \<and> \<not> says_teach lower
        \<longrightarrow> out = Some (askQuestion svc screenshot transcript s0))
    \<and> (screenshot = Some imageSrc \<and> imageSrc \<noteq> []
        \<longrightarrow> askQuestion svc screenshot transcript s0
              = performAnalysis svc imageSrc (Some transcript) s0)
    \<and> ((\<exists>p q. lower = p @ js ''skip'' @ q) \<and> (\<exists>p q. lower = p @ js ''go back'' @ q)
        \<longrightarrow> out = handleNext svc s0)
    \<and> says_next lower
        = ((\<exists>p q. lower = p @ js ''next lesson'' @ q) \<or> (\<exists>p q. lower = p @ js ''move to next'' @ q)
           \<or> (\<exists>p q. lower = p @ js ''skip'' @ q))
    \<and> says_previous lower
        = ((\<exists>p q. lower = p @ js ''previous lesson'' @ q) \<or> (\<exists>p q. lower = p @ js ''go back'' @ q))
    \<and> says_repeat lower
        = ((\<exists>p q. lower = p @ js ''again'' @ q) \<or> (\<exists>p q. lower = p @ js ''repeat'' @ q)
           \<or> (\<exists>p q. lower = p @ js ''restart'' @ q))
    \<and> says_teach lower
        = ((\<exists>p q. lower = p @ js ''how to'' @ q) \<or> (\<exists>p q. lower = p @ js ''show me'' @ q)
           \<or> (\<exists>p q. lower = p @ js ''teach me'' @ q))"
proof -
  have n: "says_next lower
        = ((\<exists>p q. lower = p @ js ''next lesson'' @ q) \<or> (\<exists>p q. lower = p @ js ''move to next'' @ q)
           \<or> (\<exists>p q. lower = p @ js ''skip'' @ q))"
    by (simp only: says_next_def includes_str_iff)
  have p: "says_previous lower
        = ((\<exists>p q. lower = p @ js ''previous lesson'' @ q) \<or> (\<exists>p q. lower = p @ js ''go back'' @ q))"
    by (simp only: says_previous_def includes_str_iff)
  have r: "says_repeat lower
        = ((\<exists>p q. lower = p @ js ''again'' @ q) \<or> (\<exists>p q. lower = p @ js ''repeat'' @ q)
           \<or> (\<exists>p q. lower = p @ js ''restart'' @ q))"
    by (simp only: says_repeat_def includes_str_iff)
  have t: "says_teach lower
        = ((\<exists>p q. lower = p @ js ''how to'' @ q) \<or> (\<exists>p q. lower = p @ js ''show me'' @ q)
           \<or> (\<exists>p q. lower = p @ js ''teach me'' @ q))"
    by (simp only: says_teach_def includes_str_iff)
  have chain: "out =
      (if says_next lower then handleNext svc s0
       else if says_previous lower then Some (handlePrevious svc s0)
       else if says_repeat lower then Some (loadLesson svc (currentLesson s) s0)
       else if says_teach lower then Some (teachLesson svc transcript s0)
       else Some (askQuestion svc screenshot transcript s0))"
    by (simp add: out_def lower_def s0_def processVoiceCommand_def Let_def)
  have q: "askQuestion svc screenshot transcript s0
      = performAnalysis svc imageSrc (Some transcript) s0"
    if "screenshot = Some imageSrc \<and> imageSrc \<noteq> []"
    using that by (simp add: askQuestion_def)
  have both: "out = handleNext svc s0"
    if "(\<exists>p q. lower = p @ js ''skip'' @ q) \<and> (\<exists>p q. lower = p @ js ''go back'' @ q)"
    using that n chain by simp
  from chain q both show ?thesis
    unfolding n [symmetric] p [symmetric] r [symmetric] t [symmetric] by simp
qed

theorem voice_priority_witness:
  "processVoiceCommand example_service example_toLowerCase None (js ''Skip this and go back'')
      initial_App
     = handleNext example_service
         (initial_App\<lparr> lastSpokenCommand := Some (js ''Skip this and go back'') \<rparr>)
   \<and> processVoiceCommand example_service example_toLowerCase None (js ''Go back'') initial_App
     = Some (handlePrevious example_service
         (initial_App\<lparr> lastSpokenCommand := Some (js ''Go back'') \<rparr>))
   \<and> processVoiceCommand example_service example_toLowerCase None (js ''Repeat'') initial_App
     = Some (loadLesson example_service (currentLesson initial_App)
         (initial_App\<lparr> lastSpokenCommand := Some (js ''Repeat'') \<rparr>))
   \<and> processVoiceCommand example_service example_toLowerCase None (js ''Teach me apple'')
      initial_App
     = Some (teachLesson example_service (js ''Teach me apple'')
         (initial_App\<lparr> lastSpokenCommand := Some (js ''Teach me apple'') \<rparr>))
   \<and> processVoiceCommand example_service example_toLowerCase (Some (js ''image''))
      (js ''Is this right'') initial_App
     = Some (performAnalysis example_service (js ''image'') (Some (js ''Is this right''))
         (initial_App\<lparr> lastSpokenCommand := Some (js ''Is this right'') \<rparr>))"
proof -
  have a: "says_next (example_toLowerCase (js ''Skip this and go back''))"
    "says_previous (example_toLowerCase (js ''Skip this and go back''))"
    by (simp_all add: says_next_def says_previous_def js_def example_toLowerCase_def)
  have b: "\<not> says_next (example_toLowerCase (js ''Go back''))"
    "says_previous (example_toLowerCase (js ''Go back''))"
    by (simp_all add: says_next_def says_previous_def js_def example_toLowerCase_def)
  have c: "\<not> says_next (example_toLowerCase (js ''Repeat''))"
    "\<not> says_previous (example_toLowerCase (js ''Repeat''))"
    "says_repeat (example_toLowerCase (js ''Repeat''))"
    by (simp_all add: says_next_def says_previous_def says_repeat_def js_def
        example_toLowerCase_def)
  have d: "\<not> says_next (example_toLowerCase (js ''Teach me apple''))"
    "\<not> says_previous (example_toLowerCase (js ''Teach me apple''))"
    "\<not> says_repeat (example_toLowerCase (js ''Teach me apple''))"
    "says_teach (example_toLowerCase (js ''Teach me apple''))"
    by (simp_all add: says_next_def says_previous_def says_repeat_def says_teach_def js_def
        example_toLowerCase_def)
  have e: "\<not> says_next (example_toLowerCase (js ''Is this right''))"
    "\<not> says_previous (example_toLowerCase (js ''Is this right''))"
    "\<not> says_repeat (example_toLowerCase (js ''Is this right''))"
    "\<not> says_teach (example_toLowerCase (js ''Is this right''))"
    by (simp_all add: says_next_def says_previous_def says_repeat_def says_teach_def js_def
        example_toLowerCase_def)
  have i: "js ''image'' \<noteq> []"
    by (simp add: js_def)
  show ?thesis
    using a b c d e i
      voice_priority [where toLowerCase = example_toLowerCase and svc = example_service
        and s = initial_App and screenshot = None and transcript = "js ''Skip this and go back''"]
      voice_priority [where toLowerCase = example_toLowerCase and svc = example_service
        and s = initial_App and screenshot = None and transcript = "js ''Go back''"]
      voice_priority [where toLowerCase = example_toLowerCase and svc = example_service
        and s = initial_App and screenshot = None and transcript = "js ''Repeat''"]
      voice_priority [where toLowerCase = example_toLowerCase and svc = example_service
        and s = initial_App and screenshot = None and transcript = "js ''Teach me apple''"]
      voice_priority [where toLowerCase = example_toLowerCase and svc = example_service
        and s = initial_App and screenshot = "Some (js ''image'')"
        and transcript = "js ''Is this right''" and imageSrc = "js ''image''"]
    by simp
qed

subsection \<open>Sentence decomposition\<close>

lemma split_spaces_Cons_space:
  "is_space a \<Longrightarrow> split_spaces (a # cs) =
     (if cs \<noteq> [] \<and> is_space (hd cs) then split_spaces cs else [] # split_spaces cs)"
  by (cases cs) (simp_all add: split_spaces.simps(2))

lemma split_spaces_not_Nil: "split_spaces t \<noteq> []"
proof (induction t)
  case Nil
  then show ?case by simp
next
  case (Cons a cs)
  show ?case
  proof (cases "is_space a")
    case True
    then show ?thesis using Cons.IH by (simp add: split_spaces_Cons_space)
  next
    case False
    then show ?thesis
      by (cases "split_spaces cs") (simp_all add: split_spaces.simps(2))
  qed
qed

lemma split_spaces_Cons_other:
  "\<not> is_space a \<Longrightarrow> split_spaces cs = v # vs \<Longrightarrow> split_spaces (a # cs) = (a # v) # vs"
  by (simp add: split_spaces.simps(2))

lemma split_spaces_no_space: "w \<in> set (split_spaces t) \<Longrightarrow> c \<in> set w \<Longrightarrow> \<not> is_space c"
proof (induction t arbitrary: w)
  case Nil
  then show ?case by simp
next
  case (Cons a cs)
  show ?case
  proof (cases "is_space a")
    case True
    with Cons.prems(1) have "w = [] \<or> w \<in> set (split_spaces cs)"
      by (simp add: split_spaces_Cons_space split: if_splits)
    with Cons.prems(2) Cons.IH show ?thesis by auto
  next
    case False
    obtain v vs where v: "split_spaces cs = v # vs"
      using split_spaces_not_Nil [of cs] by (cases "split_spaces cs") auto
    with False Cons.prems(1) have "w = a # v \<or> w \<in> set vs"
      by (simp add: split_spaces_Cons_other)
    then show ?thesis
    proof
      assume "w = a # v"
      with Cons.prems(2) have "c = a \<or> c \<in> set v" by simp
      then show ?thesis
      proof
        assume "c = a" with False show ?thesis by simp
      next
        assume "c \<in> set v"
        moreover have "v \<in> set (split_spaces cs)" using v by simp
        ultimately show ?thesis using Cons.IH by blast
      qed
    next
      assume "w \<in> set vs"
      then have "w \<in> set (split_spaces cs)" using v by simp
      then show ?thesis using Cons.prems(2) Cons.IH by blast
    qed
  qed
qed

lemma split_spaces_concat: "concat (split_spaces t) = filter (\<lambda>c. \<not> is_space c) t"
proof (induction t)
  case Nil
  then show ?case by simp
next
  case (Cons a cs)
  show ?case
  proof (cases "is_space a")
    case True
    then show ?thesis using Cons.IH by (simp add: split_spaces_Cons_space)
  next
    case False
    obtain v vs where v: "split_spaces cs = v # vs"
      using split_spaces_not_Nil [of cs] by (cases "split_spaces cs") auto
    with False Cons.IH show ?thesis
      by (simp add: split_spaces_Cons_other)
  qed
qed

lemma split_spaces_word: "\<forall>c\<in>set w. \<not> is_space c \<Longrightarrow> split_spaces w = [w]"
  by (induction w) (simp_all add: split_spaces_Cons_other)

lemma split_spaces_run:
  "sep \<noteq> [] \<Longrightarrow> \<forall>c\<in>set sep. is_space c \<Longrightarrow> rest = [] \<or> \<not> is_space (hd rest)
   \<Longrightarrow> split_spaces (sep @ rest) = [] # split_spaces rest"
proof (induction sep)
  case Nil
  then show ?case by simp
next
  case (Cons a sep)
  show ?case
  proof (cases sep)
    case Nil
    with Cons.prems show ?thesis
      by (auto simp: split_spaces_Cons_space)
  next
    case (Cons b sep')
    with Cons.prems Cons.IH show ?thesis
      by (simp add: split_spaces_Cons_space)
  qed
qed

lemma split_spaces_step:
  assumes "\<forall>c\<in>set w. \<not> is_space c" and "sep \<noteq> []" and "\<forall>c\<in>set sep. is_space c"
    and "rest = [] \<or> \<not> is_space (hd rest)"
  shows "split_spaces (w @ sep @ rest) = w # split_spaces rest"
  using assms(1)
proof (induction w)
  case Nil
  show ?case using split_spaces_run [OF assms(2,3,4)] by simp
next
  case (Cons a w)
  then show ?case by (simp add: split_spaces_Cons_other)
qed

lemma show_nat_digit: "n < 10 \<Longrightarrow> show_nat n = [48 + n]"
  by (simp add: show_nat.simps)

lemma ex_split: "split_spaces (trim (js ''Hello World!'')) = [js ''Hello'', js ''World!'']"
  by (simp add: js_def trim_def is_space_def split_spaces.simps(2))

lemma ex_clean: "toUpperCase_letters (filter is_letter (js ''World!'')) = js ''WORLD''"
  "toUpperCase_letters (filter is_letter (js ''Hello'')) = js ''HELLO''"
  by (simp_all add: js_def toUpperCase_letters_def is_letter_def)

lemma ex_targets: "map target (newLessons clock (js ''Hello World!'')) = [js ''HELLO'', js ''WORLD'']"
  by (simp add: newLessons_def ex_split enumerate_eq_zip List.map_filter_simps lessonOfWord_def ex_clean Let_def upt_rec)

lemma ex_difficulty: "map difficulty (newLessons clock (js ''Hello World!'')) = [Intermediate, Intermediate]"
  by (simp add: newLessons_def ex_split enumerate_eq_zip List.map_filter_simps lessonOfWord_def ex_clean Let_def upt_rec)
     (simp add: js_def)

lemma ex_single: "newLessons clock (js ''A'') =
    [\<lparr> id_lesson = js ''seq-'' @ show_nat (clock 0) @ js ''-0'', target = js ''A'',
        description = js ''Step 1 of 1: Sign '' @ apos @ js ''A'' @ apos,
        difficulty = Beginner,
        prompt = js ''photorealistic close-up of a hand signing ASL letter A, neutral background, 4k'' \<rparr>]"
  by (simp add: newLessons_def enumerate_eq_zip List.map_filter_simps lessonOfWord_def Let_def
      upt_rec js_def trim_def is_space_def split_spaces.simps(2) toUpperCase_letters_def
      is_letter_def show_nat_digit)

lemma lessonOfWord_target:
  "lessonOfWord now len index rawWord = Some l \<Longrightarrow>
     target l = toUpperCase_letters (filter is_letter rawWord) \<and> target l \<noteq> []"
  by (auto simp: lessonOfWord_def Let_def split: if_splits)

lemma lessonOfWord_class:
  "lessonOfWord now len index rawWord = Some l \<Longrightarrow>
     (if length (target l) > 1
      then difficulty l = Intermediate
        \<and> prompt l = js ''educational infographic illustration of hands signing the word '' @ dquote
            @ target l @ dquote
            @ js '' in ASL, showing motion lines, arrows indicating movement, and facial expression if necessary, photorealistic style, white background''
      else difficulty l = Beginner
        \<and> prompt l = js ''photorealistic close-up of a hand signing ASL letter '' @ target l
            @ js '', neutral background, 4k'')"
  by (auto simp: lessonOfWord_def Let_def split: if_splits)

lemma toUpperCase_letters_upper:
  "c \<in> set (toUpperCase_letters (filter is_letter w)) \<Longrightarrow> 65 \<le> c \<and> c \<le> 90"
  by (auto simp: toUpperCase_letters_def is_letter_def)

lemma map_filter_targets:
  "map target (List.map_filter (\<lambda>(index, rawWord). lessonOfWord (clock index) n index rawWord)
      (enumerate k ws))
   = filter (\<lambda>w. w \<noteq> []) (map (\<lambda>w. toUpperCase_letters (filter is_letter w)) ws)"
  by (induction ws arbitrary: k) (simp_all add: List.map_filter_simps lessonOfWord_def Let_def)

lemma newLessons_targets:
  "map target (newLessons clock sentence)
   = filter (\<lambda>w. w \<noteq> [])
       (map (\<lambda>w. toUpperCase_letters (filter is_letter w)) (split_spaces (trim sentence)))"
  by (simp add: newLessons_def Let_def map_filter_targets)

lemma newLessons_member:
  assumes "l \<in> set (newLessons clock sentence)"
  shows "\<exists>now len index rawWord. lessonOfWord now len index rawWord = Some l"
proof -
  from assms obtain x where
    "(case x of (index, rawWord) \<Rightarrow>
        lessonOfWord (clock index) (length (split_spaces (trim sentence))) index rawWord) = Some l"
    by (auto simp: newLessons_def Let_def List.map_filter_def)
  then show ?thesis by (cases x) auto
qed

lemma newLessons_blank: "trim sentence = [] \<Longrightarrow> newLessons clock sentence = []"
  by (simp add: newLessons_def Let_def enumerate_eq_zip List.map_filter_simps lessonOfWord_def
      toUpperCase_letters_def)

lemma handleSentenceSubmit_none:
  "newLessons clock (customSentence s) = [] \<Longrightarrow> handleSentenceSubmit svc clock s = s"
  by (simp add: handleSentenceSubmit_def)

lemma handleSentenceSubmit_some:
  assumes "newLessons clock (customSentence s) = first # rest"
  shows "lessonQueue (handleSentenceSubmit svc clock s) = first # rest
    \<and> currentLesson (handleSentenceSubmit svc clock s) = first
    \<and> customSentence (handleSentenceSubmit svc clock s) = []
    \<and> progress (handleSentenceSubmit svc clock s) = progress s
    \<and> started (handleSentenceSubmit svc clock s) = started s @ [ImageCall (prompt first) (js ''1:1'')]"
proof -
  have "trim (customSentence s) \<noteq> []"
    using assms newLessons_blank [of "customSentence s" clock] by auto
  then show ?thesis
    using assms
    by (simp add: handleSentenceSubmit_def loadLesson_begin_def loadLesson_settle_def Let_def
        split: promise.split)
qed

text \<open>
  Claim C6. The targets of the lessons of a sentence are, in order, the pieces of the
  trimmed sentence between runs of white space, each stripped of every character outside
  A-Z and a-z and put in upper case, without the pieces that become empty. The pieces
  hold no white space, keep every other character in order, and are cut exactly at the
  runs of white space. Every lesson has a non-empty target of upper-case letters and is
  a Beginner lesson with the letter prompt when the target is one letter, an Intermediate
  lesson with the word prompt otherwise. \<^verbatim>\<open>Hello World!\<close> gives the targets HELLO and
  WORLD, both Intermediate; \<^verbatim>\<open>A\<close> gives one Beginner lesson. When no lesson
  survives, the state (queue and current lesson included) is unchanged; otherwise the
  lessons replace the queue and the first becomes the current lesson.
\<close>

theorem sentence_decomposition:
  "map target (newLessons clock sentence)
     = filter (\<lambda>w. w \<noteq> [])
         (map (\<lambda>w. toUpperCase_letters (filter is_letter w)) (split_spaces (trim sentence)))
   \<and> (\<forall>w\<in>set (split_spaces t). \<forall>c\<in>set w. \<not> is_space c)
   \<and> concat (split_spaces t) = filter (\<lambda>c. \<not> is_space c) t
   \<and> ((\<forall>c\<in>set w. \<not> is_space c) \<longrightarrow> split_spaces w = [w])
   \<and> ((\<forall>c\<in>set w. \<not> is_space c) \<and> sep \<noteq> [] \<and> (\<forall>c\<in>set sep. is_space c)
        \<and> (tail = [] \<or> \<not> is_space (hd tail))
       \<longrightarrow> split_spaces (w @ sep @ tail) = w # split_spaces tail)
   \<and> (\<forall>l\<in>set (newLessons clock sentence).
         target l \<noteq> [] \<and> (\<forall>c\<in>set (target l). 65 \<le> c \<and> c \<le> 90)
         \<and> (if length (target l) > 1
             then difficulty l = Intermediate
               \<and> prompt l = js ''educational infographic illustration of hands signing the word ''
                   @ dquote @ target l @ dquote
                   @ js '' in ASL, showing motion lines, arrows indicating movement, and facial expression if necessary, photorealistic style, white background''
             else difficulty l = Beginner
               \<and> prompt l = js ''photorealistic close-up of a hand signing ASL letter '' @ target l
                   @ js '', neutral background, 4k''))
   \<and> map target (newLessons clock (js ''Hello World!'')) = [js ''HELLO'', js ''WORLD'']
   \<and> map difficulty (newLessons clock (js ''Hello World!'')) = [Intermediate, Intermediate]
   \<and> newLessons clock (js ''A'')
       = [\<lparr> id_lesson = js ''seq-'' @ show_nat (clock 0) @ js ''-0'', target = js ''A'',
            description = js ''Step 1 of 1: Sign '' @ apos @ js ''A'' @ apos,
            difficulty = Beginner,
            prompt = js ''photorealistic close-up of a hand signing ASL letter A, neutral background, 4k'' \<rparr>]
   \<and> (newLessons clock (customSentence s) = [] \<longrightarrow> handleSentenceSubmit svc clock s = s)
   \<and> (newLessons clock (customSentence s) = first # others
       \<longrightarrow> lessonQueue (handleSentenceSubmit svc clock s) = first # others
         \<and> currentLesson (handleSentenceSubmit svc clock s) = first)"
proof -
  have member: "target l \<noteq> [] \<and> (\<forall>c\<in>set (target l). 65 \<le> c \<and> c \<le> 90)
         \<and> (if length (target l) > 1
             then difficulty l = Intermediate
               \<and> prompt l = js ''educational infographic illustration of hands signing the word ''
                   @ dquote @ target l @ dquote
                   @ js '' in ASL, showing motion lines, arrows indicating movement, and facial expression if necessary, photorealistic style, white background''
             else difficulty l = Beginner
               \<and> prompt l = js ''photorealistic close-up of a hand signing ASL letter '' @ target l
                   @ js '', neutral background, 4k'')"
    if "l \<in> set (newLessons clock sentence)" for l
  proof -
    from that obtain now len index rawWord
      where l: "lessonOfWord now len index rawWord = Some l"
      using newLessons_member by blast
    from lessonOfWord_target [OF l] have t: "target l \<noteq> []"
      and u: "\<forall>c\<in>set (target l). 65 \<le> c \<and> c \<le> 90"
      using toUpperCase_letters_upper [of _ rawWord] by auto
    from t u lessonOfWord_class [OF l] show ?thesis by blast
  qed
  have run: "split_spaces (w @ sep @ tail) = w # split_spaces tail"
    if "(\<forall>c\<in>set w. \<not> is_space c) \<and> sep \<noteq> [] \<and> (\<forall>c\<in>set sep. is_space c)
        \<and> (tail = [] \<or> \<not> is_space (hd tail))"
    using that split_spaces_step [of w sep tail] by blast
  have nospace: "\<forall>w\<in>set (split_spaces t). \<forall>c\<in>set w. \<not> is_space c"
    using split_spaces_no_space by blast
  have some: "lessonQueue (handleSentenceSubmit svc clock s) = first # others
         \<and> currentLesson (handleSentenceSubmit svc clock s) = first"
    if "newLessons clock (customSentence s) = first # others"
    using handleSentenceSubmit_some [OF that] by blast
  show ?thesis
    apply (intro conjI)
              apply (rule newLessons_targets)
             apply (rule nospace)
            apply (rule split_spaces_concat)
           apply (simp add: split_spaces_word)
          apply (rule impI, erule run)
         apply (intro ballI, erule member)
        apply (rule ex_targets)
       apply (rule ex_difficulty)
      apply (rule ex_single)
     apply (simp add: handleSentenceSubmit_none)
    apply (rule impI, erule some)
    done
qed

theorem sentence_decomposition_witness:
  "map target (newLessons (\<lambda>i. 0) (js ''Hi'' @ [8195] @ js ''you 2, a!''))
     = [js ''HI'', js ''YOU'', js ''A'']
   \<and> handleSentenceSubmit example_service (\<lambda>i. 0) (initial_App\<lparr> customSentence := js '' 42 !'' \<rparr>)
     = initial_App\<lparr> customSentence := js '' 42 !'' \<rparr>
   \<and> split_spaces (js ''to be'' @ [9, 32] @ js ''or'') = [js ''to'', js ''be'', js ''or'']"
proof -
  let ?s = "initial_App\<lparr> customSentence := js '' 42 !'' \<rparr>"
  have sp: "split_spaces (trim (js ''Hi'' @ [8195] @ js ''you 2, a!''))
      = [js ''Hi'', js ''you'', js ''2,'', js ''a!'']"
    by (simp add: js_def trim_def is_space_def split_spaces.simps(2))
  have cl: "filter (\<lambda>w. w \<noteq> [])
      (map (\<lambda>w. toUpperCase_letters (filter is_letter w)) [js ''Hi'', js ''you'', js ''2,'', js ''a!''])
      = [js ''HI'', js ''YOU'', js ''A'']"
    by (simp add: js_def toUpperCase_letters_def is_letter_def)
  have none: "newLessons (\<lambda>i. 0) (customSentence ?s) = []"
    by (simp add: newLessons_def enumerate_eq_zip List.map_filter_simps lessonOfWord_def Let_def
        upt_rec js_def trim_def is_space_def split_spaces.simps(2) toUpperCase_letters_def
        is_letter_def)
  have w: "\<forall>c\<in>set (js ''be''). \<not> is_space c" "\<forall>c\<in>set (js ''or''). \<not> is_space c"
    "\<forall>c\<in>set (js ''to''). \<not> is_space c"
    by (simp_all add: js_def is_space_def)
  have sep: "\<forall>c\<in>set [9, 32]. is_space c" "\<forall>c\<in>set [32]. is_space c"
    by (simp_all add: is_space_def)
  have h: "\<not> is_space (hd (js ''or''))" "\<not> is_space (hd (js ''be'' @ [9, 32] @ js ''or''))"
    by (simp_all add: js_def is_space_def)
  have a: "split_spaces (js ''or'') = [js ''or'']"
    using sentence_decomposition [where w = "js ''or''"] w by blast
  have b: "split_spaces (js ''be'' @ [9, 32] @ js ''or'') = js ''be'' # split_spaces (js ''or'')"
    using sentence_decomposition [where w = "js ''be''" and sep = "[9, 32]" and tail = "js ''or''"]
      w sep h by blast
  have c: "split_spaces (js ''to'' @ [32] @ (js ''be'' @ [9, 32] @ js ''or''))
      = js ''to'' # split_spaces (js ''be'' @ [9, 32] @ js ''or'')"
    using sentence_decomposition [where w = "js ''to''" and sep = "[32]"
        and tail = "js ''be'' @ [9, 32] @ js ''or''"]
      w sep h by blast
  have d: "js ''to be'' = js ''to'' @ [32] @ js ''be''"
    by (simp add: js_def)
  have t: "map target (newLessons (\<lambda>i. 0) (js ''Hi'' @ [8195] @ js ''you 2, a!''))
     = [js ''HI'', js ''YOU'', js ''A'']"
    using sentence_decomposition [where clock = "\<lambda>i. 0"
        and sentence = "js ''Hi'' @ [8195] @ js ''you 2, a!''"] sp cl
    by simp
  have n: "handleSentenceSubmit example_service (\<lambda>i. 0) ?s = ?s"
    using sentence_decomposition [where clock = "\<lambda>i. 0" and s = ?s and svc = example_service] none
    by blast
  from a b c d t n show ?thesis by simp
qed

end
